theory Spec2Isabelle
  imports Main "HOL-Library.Sublist" "HOL-Library.AList"
begin

section \<open>JavaScript values\<close>

text \<open>
  The wrapper and the comparator of \<^verbatim>\<open>contains/index.js\<close> inspect their arguments
  dynamically (\<^verbatim>\<open>typeof\<close>, \<^verbatim>\<open>Array.isArray\<close>, \<^verbatim>\<open>!a\<close>, \<^verbatim>\<open>a === b\<close>), so one
  datatype holds every value they can meet. Arrays, objects and functions carry a
  reference number: two of them are \<^verbatim>\<open>===\<close> only when they are the same reference.
  An object is the list of its own enumerable properties in insertion order; a render
  node or a React element is an object with the properties \<^verbatim>\<open>type\<close>, \<^verbatim>\<open>props\<close>,
  \<^verbatim>\<open>children\<close>, \<^verbatim>\<open>parent\<close>, \<^verbatim>\<open>instance\<close>. Finite numbers are the integers;
  \<^verbatim>\<open>NaN\<close> is kept apart because \<^verbatim>\<open>===\<close> and truthiness treat it specially.
  Fractions, the infinities and the negative zero are not values of this theory, and
  sums and decimal strings are exact where a double rounds (beyond \<^verbatim>\<open>2^53\<close>) or prints
  an exponent (from \<^verbatim>\<open>1e21\<close>): no statement below depends on the digits of a number.
\<close>

datatype jsnum = NaN | Fin int

datatype jsval =
    JUndefined
  | JNull
  | JBool bool
  | JNum jsnum
  | JStr string
  | JFun nat "(string \<times> jsval) list"
  | JArr nat "jsval list"
  | JObj nat "(string \<times> jsval) list"

text \<open>\<^verbatim>\<open>!v\<close> is false exactly on the truthy values.\<close>

fun truthy :: "jsval \<Rightarrow> bool" where
  "truthy JUndefined = False"
| "truthy JNull = False"
| "truthy (JBool b) = b"
| "truthy (JNum n) = (n \<noteq> NaN \<and> n \<noteq> Fin 0)"
| "truthy (JStr s) = (s \<noteq> [])"
| "truthy (JFun r fs) = True"
| "truthy (JArr r xs) = True"
| "truthy (JObj r fs) = True"

text \<open>\<^verbatim>\<open>a === b\<close>: the same primitive value or the same reference; \<^verbatim>\<open>NaN\<close> equals nothing.\<close>

definition strict_eq :: "jsval \<Rightarrow> jsval \<Rightarrow> bool" where
  "strict_eq a b = (a = b \<and> a \<noteq> JNum NaN)"

fun typeof :: "jsval \<Rightarrow> string" where
  "typeof JUndefined = ''undefined''"
| "typeof JNull = ''object''"
| "typeof (JBool b) = ''boolean''"
| "typeof (JNum n) = ''number''"
| "typeof (JStr s) = ''string''"
| "typeof (JFun r fs) = ''function''"
| "typeof (JArr r xs) = ''object''"
| "typeof (JObj r fs) = ''object''"

fun isArray :: "jsval \<Rightarrow> bool" where
  "isArray (JArr r xs) = True"
| "isArray _ = False"

subsection \<open>Numbers as strings\<close>

definition digit_char :: "nat \<Rightarrow> char" where
  "digit_char d = ''0123456789'' ! (d mod 10)"

function show_nat :: "nat \<Rightarrow> string" where
  "show_nat n = (if n < 10 then [digit_char n] else show_nat (n div 10) @ [digit_char n])"
  by pat_completeness auto
termination
  by (relation "measure id") auto

definition show_int :: "int \<Rightarrow> string" where
  "show_int i = (if i < 0 then CHR ''-'' # show_nat (nat (- i)) else show_nat (nat i))"

fun num_to_string :: "jsnum \<Rightarrow> string" where
  "num_to_string NaN = ''NaN''"
| "num_to_string (Fin i) = show_int i"

fun num_add :: "jsnum \<Rightarrow> jsnum \<Rightarrow> jsnum" where
  "num_add (Fin i) (Fin j) = Fin (i + j)"
| "num_add _ _ = NaN"

text \<open>
  \<^verbatim>\<open>a + b\<close> on strings and numbers, the only operands \<^verbatim>\<open>childrenToSimplifiedArray\<close>
  gives it: two numbers are added, anything else is concatenated as text.
\<close>

fun js_plus :: "jsval \<Rightarrow> jsval \<Rightarrow> jsval" where
  "js_plus (JNum m) (JNum n) = JNum (num_add m n)"
| "js_plus (JNum m) (JStr t) = JStr (num_to_string m @ t)"
| "js_plus (JStr s) (JNum n) = JStr (s @ num_to_string n)"
| "js_plus (JStr s) (JStr t) = JStr (s @ t)"
| "js_plus a b = JUndefined"

subsection \<open>Property access\<close>

text \<open>
  An object inherits the members of \<^verbatim>\<open>Object.prototype\<close>: \<^verbatim>\<open>k in obj\<close> and \<^verbatim>\<open>obj[k]\<close>
  find them when \<open>obj\<close> has no own property \<open>k\<close>. They are builtin functions, each its
  own reference (\<^verbatim>\<open>constructor\<close> is \<^verbatim>\<open>Object\<close>); \<^verbatim>\<open>__proto__\<close> reads as the prototype
  object itself.
\<close>

definition objectPrototype :: "(string \<times> jsval) list" where
  "objectPrototype =
     [(''constructor'', JFun 1000 []),
      (''__defineGetter__'', JFun 1001 []),
      (''__defineSetter__'', JFun 1002 []),
      (''hasOwnProperty'', JFun 1003 []),
      (''__lookupGetter__'', JFun 1004 []),
      (''__lookupSetter__'', JFun 1005 []),
      (''isPrototypeOf'', JFun 1006 []),
      (''propertyIsEnumerable'', JFun 1007 []),
      (''toString'', JFun 1008 []),
      (''valueOf'', JFun 1009 []),
      (''toLocaleString'', JFun 1010 []),
      (''__proto__'', JObj 1011 [])]"

definition objectPrototypeNames :: "string list" where
  "objectPrototypeNames = map fst objectPrototype"

text \<open>The own property \<open>k\<close> of a list of properties, undefined when there is none.\<close>

definition lookup :: "(string \<times> jsval) list \<Rightarrow> string \<Rightarrow> jsval" where
  "lookup fs k = (case map_of fs k of Some v \<Rightarrow> v | None \<Rightarrow> JUndefined)"

text \<open>\<^verbatim>\<open>k in obj\<close> and \<^verbatim>\<open>obj[k]\<close> on an object with the own properties \<open>obj\<close>.\<close>

definition hasProperty :: "string \<Rightarrow> (string \<times> jsval) list \<Rightarrow> bool" where
  "hasProperty k obj = (map_of obj k \<noteq> None \<or> map_of objectPrototype k \<noteq> None)"

definition member :: "(string \<times> jsval) list \<Rightarrow> string \<Rightarrow> jsval" where
  "member obj k = (case map_of obj k of Some v \<Rightarrow> v | None \<Rightarrow> lookup objectPrototype k)"

text \<open>
  \<^verbatim>\<open>v.k\<close> on a value that is neither \<^verbatim>\<open>null\<close> nor \<^verbatim>\<open>undefined\<close>. A function, an
  array and a primitive are read for their own named properties only: the code reads
  from them \<^verbatim>\<open>type\<close>, \<^verbatim>\<open>props\<close>, \<^verbatim>\<open>children\<close>, \<^verbatim>\<open>parent\<close>, \<^verbatim>\<open>instance\<close>,
  \<^verbatim>\<open>displayName\<close> and \<^verbatim>\<open>name\<close>, which their builtin prototypes do not define (the
  \<^verbatim>\<open>name\<close> of a function is a property of its own).
\<close>

fun get :: "jsval \<Rightarrow> string \<Rightarrow> jsval" where
  "get (JObj r fs) k = member fs k"
| "get (JFun r fs) k = lookup fs k"
| "get v k = JUndefined"

text \<open>\<^verbatim>\<open>entries(v)\<close> of \<^verbatim>\<open>object.entries\<close>: the own enumerable string-keyed properties.\<close>

fun entries :: "jsval \<Rightarrow> (string \<times> jsval) list" where
  "entries (JObj r fs) = fs"
| "entries (JFun r fs) = fs"
| "entries (JArr r xs) = zip (map show_nat [0..<length xs]) xs"
| "entries (JStr s) = zip (map show_nat [0..<length s]) (map (\<lambda>c. JStr [c]) s)"
| "entries v = []"

section \<open>Children normalisation (contains/index.js)\<close>

fun isTextualNode :: "jsval \<Rightarrow> bool" where
  "isTextualNode (JStr s) = True"
| "isTextualNode (JNum n) = True"
| "isTextualNode v = False"

text \<open>The \<^verbatim>\<open>push\<close> closure of \<^verbatim>\<open>childrenToArray\<close> skips null, false and undefined.\<close>

definition skipped :: "jsval \<Rightarrow> bool" where
  "skipped el = (el = JNull \<or> el = JBool False \<or> el = JUndefined)"

fun childrenToArray :: "jsval \<Rightarrow> jsval list" where
  "childrenToArray (JArr r xs) = filter (\<lambda>el. \<not> skipped el) xs"
| "childrenToArray v = filter (\<lambda>el. \<not> skipped el) [v]"

text \<open>\<^verbatim>\<open>Array.prototype.pop\<close>: the last element and the rest, undefined on an empty array.\<close>

definition pop :: "jsval list \<Rightarrow> jsval \<times> jsval list" where
  "pop xs = (if xs = [] then (JUndefined, []) else (last xs, butlast xs))"

text \<open>One iteration of the loop of \<^verbatim>\<open>childrenToSimplifiedArray\<close>.\<close>

definition simplify_step :: "jsval list \<Rightarrow> jsval \<Rightarrow> jsval list" where
  "simplify_step simplifiedArray child =
     (case pop simplifiedArray of (previousChild, rest) \<Rightarrow>
        if typeof previousChild = ''undefined'' then rest @ [child]
        else if isTextualNode child \<and> isTextualNode previousChild
          then rest @ [js_plus previousChild child]
        else rest @ [previousChild] @ [child])"

definition childrenToSimplifiedArray :: "jsval \<Rightarrow> jsval list" where
  "childrenToSimplifiedArray nodeChildren =
     foldl simplify_step [] (childrenToArray nodeChildren)"

section \<open>Structural comparator (contains/index.js)\<close>

text \<open>
  \<^verbatim>\<open>propsOfNode\<close> (common/index.js): the props of a node without the undefined ones,
  rebuilt key by key with \<^verbatim>\<open>Object.assign(acc, { [key]: value })\<close>. That assignment
  makes \<open>key\<close> an own property of \<open>acc\<close>, but for the key \<^verbatim>\<open>__proto__\<close>, which reaches
  the setter of \<^verbatim>\<open>Object.prototype\<close> and adds no property. (The setter may give \<open>acc\<close>
  another prototype; the objects of this theory keep \<^verbatim>\<open>Object.prototype\<close>, and the one
  statement below that depends on what an object inherits excludes the key.)
  \<open>nodeEntries\<close> is the \<^verbatim>\<open>entries((node && node.props) || {})\<close> it starts from.
\<close>

definition assign :: "(string \<times> jsval) list \<Rightarrow> string \<times> jsval \<Rightarrow> (string \<times> jsval) list" where
  "assign acc kv = (if fst kv = ''__proto__'' then acc else AList.update (fst kv) (snd kv) acc)"

definition nodeEntries :: "jsval \<Rightarrow> (string \<times> jsval) list" where
  "nodeEntries node =
     (let props = (if truthy node then get node ''props'' else node) in
      if truthy props then entries props else [])"

definition propsOfNode :: "jsval \<Rightarrow> (string \<times> jsval) list" where
  "propsOfNode node =
     foldl assign [] (filter (\<lambda>(key, value). typeof value \<noteq> ''undefined'') (nodeEntries node))"

definition removeNullaryReducer ::
  "(string \<times> jsval) list \<Rightarrow> string \<times> jsval \<Rightarrow> (string \<times> jsval) list" where
  "removeNullaryReducer acc kv =
     (case kv of (key, value) \<Rightarrow>
        if value = JNull \<or> value = JUndefined then acc else AList.update key value acc)"

definition nodeProps :: "bool \<Rightarrow> jsval \<Rightarrow> (string \<times> jsval) list" where
  "nodeProps isLoose node =
     (if isLoose then foldl removeNullaryReducer [] (propsOfNode node) else propsOfNode node)"

fun propsLoop ::
  "(jsval \<Rightarrow> jsval \<Rightarrow> bool) \<Rightarrow> (string \<times> jsval) list \<Rightarrow> (string \<times> jsval) list \<Rightarrow> string list \<Rightarrow> bool" where
  "propsLoop isEqual left right [] = True"
| "propsLoop isEqual left right (prop # leftKeys) =
     (if prop = ''children'' then propsLoop isEqual left right leftKeys
      else if \<not> hasProperty prop right then False
      else if strict_eq (member right prop) (member left prop)
        then propsLoop isEqual left right leftKeys
      else if typeof (member right prop) = typeof (member left prop)
              \<and> typeof (member left prop) = ''object''
        then (if \<not> isEqual (member left prop) (member right prop) then False
              else propsLoop isEqual left right leftKeys)
      else False)"

fun childrenLoop :: "(jsval \<Rightarrow> jsval \<Rightarrow> bool) \<Rightarrow> jsval list \<Rightarrow> jsval list \<Rightarrow> bool" where
  "childrenLoop nodeCompare (x # xs) (y # ys) =
     (if \<not> nodeCompare x y then False else childrenLoop nodeCompare xs ys)"
| "childrenLoop nodeCompare xs ys = True"

definition internalChildrenCompare ::
  "(jsval \<Rightarrow> jsval \<Rightarrow> bool) \<Rightarrow> jsval list \<Rightarrow> jsval list \<Rightarrow> bool" where
  "internalChildrenCompare nodeCompare a b =
     (if length a \<noteq> length b then False
      else if length a = 0 \<and> length b = 0 then True
      else childrenLoop nodeCompare a b)"

lemma childrenLoop_cong [fundef_cong]:
  "xs = xs' \<Longrightarrow> ys = ys' \<Longrightarrow> (\<And>x y. x \<in> set xs' \<Longrightarrow> y \<in> set ys' \<Longrightarrow> f x y = g x y)
   \<Longrightarrow> childrenLoop f xs ys = childrenLoop g xs' ys'"
proof (induction g xs' ys' arbitrary: xs ys rule: childrenLoop.induct)
  case (1 g x xs y ys)
  then show ?case by auto
qed auto

lemma internalChildrenCompare_cong [fundef_cong]:
  "a = a' \<Longrightarrow> b = b' \<Longrightarrow> (\<And>x y. x \<in> set a' \<Longrightarrow> y \<in> set b' \<Longrightarrow> f x y = g x y)
   \<Longrightarrow> internalChildrenCompare f a b = internalChildrenCompare g a' b'"
proof -
  assume h: "a = a'" "b = b'" "\<And>x y. x \<in> set a' \<Longrightarrow> y \<in> set b' \<Longrightarrow> f x y = g x y"
  have "childrenLoop f a b = childrenLoop g a' b'"
    using h(1) h(2) by (rule childrenLoop_cong) (simp add: h(3))
  with h(1,2) show ?thesis by (simp add: internalChildrenCompare_def)
qed

definition childrenOf :: "bool \<Rightarrow> jsval \<Rightarrow> jsval list" where
  "childrenOf isLoose node = childrenToSimplifiedArray (member (nodeProps isLoose node) ''children'')"

lemma js_plus_size: "size (js_plus a b) = 0"
  by (cases a; cases b) auto

lemma simplify_step_size:
  assumes "\<forall>y \<in> set acc. size y \<le> n" "size x \<le> n"
  shows "\<forall>y \<in> set (simplify_step acc x). size y \<le> n"
proof (cases "acc = []")
  case True
  then show ?thesis using assms by (simp add: simplify_step_def pop_def)
next
  case False
  have "\<forall>y \<in> set (butlast acc). size y \<le> n" using assms by (auto dest: in_set_butlastD)
  moreover have "size (last acc) \<le> n" using assms False by simp
  ultimately show ?thesis using assms False
    by (simp add: simplify_step_def pop_def js_plus_size)
qed

lemma foldl_simplify_size:
  "\<forall>y \<in> set acc. size y \<le> n \<Longrightarrow> \<forall>y \<in> set xs. size y \<le> n
   \<Longrightarrow> \<forall>y \<in> set (foldl simplify_step acc xs). size y \<le> n"
proof (induction xs arbitrary: acc)
  case (Cons x xs)
  have "\<forall>y \<in> set (simplify_step acc x). size y \<le> n"
    using Cons.prems by (intro simplify_step_size) auto
  with Cons show ?case by simp
qed simp

lemma childrenToArray_size: "x \<in> set (childrenToArray c) \<Longrightarrow> size x \<le> size c"
proof (cases c)
  case (JArr r xs)
  assume "x \<in> set (childrenToArray c)"
  with JArr have "x \<in> set xs" by simp
  then have "size x \<le> size_list size xs" by (induction xs) auto
  with JArr show ?thesis by simp
qed (auto split: if_splits)

lemma simplified_size: "x \<in> set (childrenToSimplifiedArray c) \<Longrightarrow> size x \<le> size c"
  unfolding childrenToSimplifiedArray_def
  using foldl_simplify_size[of "[]" "size c" "childrenToArray c"] childrenToArray_size by auto

lemma assign_values: "snd ` set (foldl assign acc xs) \<subseteq> snd ` set acc \<union> snd ` set xs"
proof (induction xs arbitrary: acc)
  case (Cons x xs)
  have "snd ` set (AList.update (fst x) (snd x) acc) \<subseteq> snd ` set acc \<union> {snd x}"
    by (induction acc) auto
  then have "snd ` set (assign acc x) \<subseteq> snd ` set acc \<union> {snd x}"
    by (auto simp: assign_def)
  with Cons[of "assign acc x"] show ?case by auto
qed simp

lemma removeNullary_values:
  "snd ` set (foldl removeNullaryReducer acc xs) \<subseteq> snd ` set acc \<union> snd ` set xs"
proof (induction xs arbitrary: acc)
  case (Cons x xs)
  have u: "\<And>k v. snd ` set (AList.update k v acc) \<subseteq> snd ` set acc \<union> {v}"
    by (induction acc) auto
  have "snd ` set (removeNullaryReducer acc x) \<subseteq> snd ` set acc \<union> {snd x}"
    unfolding removeNullaryReducer_def using u by (cases x) auto
  with Cons[of "removeNullaryReducer acc x"] show ?case by auto
qed simp

lemma field_size: "v \<in> snd ` set fs \<Longrightarrow> size v < Suc (size_list (size_prod (\<lambda>x. 0) size) fs)"
  by (induction fs) force+

lemma lookup_in: "lookup fs k \<noteq> JUndefined \<Longrightarrow> lookup fs k \<in> snd ` set fs"
  by (auto simp: lookup_def split: option.splits dest!: map_of_SomeD intro: rev_image_eqI)

lemma entries_size: "v \<in> snd ` set (entries p) \<Longrightarrow> size v \<le> size p"
proof (cases p)
  case (JArr r xs)
  assume "v \<in> snd ` set (entries p)"
  with JArr have "v \<in> set xs" by (auto dest: set_zip_rightD)
  then have "size v \<le> size_list size xs" by (induction xs) auto
  with JArr show ?thesis by simp
next
  case (JStr s)
  assume "v \<in> snd ` set (entries p)"
  with JStr show ?thesis by (auto dest!: set_zip_rightD)
next
  case (JObj r fs)
  assume "v \<in> snd ` set (entries p)"
  with JObj show ?thesis using field_size[of v fs] by simp
next
  case (JFun r fs)
  assume "v \<in> snd ` set (entries p)"
  with JFun show ?thesis using field_size[of v fs] by simp
qed auto

lemma member_own: "k \<notin> set objectPrototypeNames \<Longrightarrow> member obj k = lookup obj k"
proof -
  assume "k \<notin> set objectPrototypeNames"
  then have "map_of objectPrototype k = None"
    by (simp add: objectPrototypeNames_def map_of_eq_None_iff)
  then show ?thesis by (simp add: member_def lookup_def split: option.splits)
qed

lemma hasProperty_own:
  "k \<notin> set objectPrototypeNames \<Longrightarrow> hasProperty k obj = (k \<in> fst ` set obj)"
  by (simp add: hasProperty_def objectPrototypeNames_def map_of_eq_None_iff)

lemma names_read [simp]:
  "''children'' \<notin> set objectPrototypeNames" "''props'' \<notin> set objectPrototypeNames"
  "''parent'' \<notin> set objectPrototypeNames" "''type'' \<notin> set objectPrototypeNames"
  by (simp_all add: objectPrototypeNames_def objectPrototype_def)

lemma member_children [simp]: "member obj ''children'' = lookup obj ''children''"
  by (simp add: member_own)

lemma hasProperty_children: "hasProperty ''children'' obj = (''children'' \<in> fst ` set obj)"
  by (simp add: hasProperty_own)

lemma get_size:
  "k \<notin> set objectPrototypeNames \<Longrightarrow> get a k \<noteq> JUndefined \<Longrightarrow> size (get a k) < size a"
  by (cases a) (auto simp: member_own dest!: lookup_in field_size)

lemma propsOfNode_values: "v \<in> snd ` set (propsOfNode a) \<Longrightarrow> size v < size a"
proof -
  assume v: "v \<in> snd ` set (propsOfNode a)"
  let ?p = "if truthy a then get a ''props'' else a"
  have t: "truthy ?p" "truthy a"
    using v by (auto simp: propsOfNode_def nodeEntries_def Let_def split: if_splits)
  from v t have "v \<in> snd ` set (filter (\<lambda>(key, value). typeof value \<noteq> ''undefined'') (entries ?p))"
    using assign_values[of "[]" "filter (\<lambda>(key, value). typeof value \<noteq> ''undefined'') (entries ?p)"]
    by (auto simp: propsOfNode_def nodeEntries_def Let_def)
  then have "v \<in> snd ` set (entries ?p)" by auto
  then have "size v \<le> size ?p" by (rule entries_size)
  moreover have "?p \<noteq> JUndefined" using t(1) by auto
  then have "size ?p < size a" using t get_size[of "''props''" a] by (auto split: if_splits)
  ultimately show ?thesis by simp
qed

lemma nodeProps_values: "v \<in> snd ` set (nodeProps l a) \<Longrightarrow> size v < size a"
  using removeNullary_values[of "[]" "propsOfNode a"] propsOfNode_values[of v a]
  by (auto simp: nodeProps_def split: if_splits)

lemma childrenOf_size: "x \<in> set (childrenOf l a) \<Longrightarrow> size x < size a"
proof -
  assume x: "x \<in> set (childrenOf l a)"
  let ?c = "lookup (nodeProps l a) ''children''"
  from x have "?c \<noteq> JUndefined" by (auto simp: childrenOf_def childrenToSimplifiedArray_def skipped_def)
  then have "size ?c < size a" using lookup_in nodeProps_values by blast
  moreover have "size x \<le> size ?c" using x simplified_size by (simp add: childrenOf_def)
  ultimately show ?thesis by simp
qed

function internalNodeCompare ::
  "(jsval \<Rightarrow> jsval \<Rightarrow> bool) \<Rightarrow> (int \<Rightarrow> int \<Rightarrow> bool) \<Rightarrow> bool \<Rightarrow> jsval \<Rightarrow> jsval \<Rightarrow> bool" where
  "internalNodeCompare isEqual lenComp isLoose a b =
     (if strict_eq a b then True
      else if \<not> truthy a \<or> \<not> truthy b then False
      else if \<not> strict_eq (get a ''type'') (get b ''type'') then False
      else if \<not> propsLoop isEqual (nodeProps isLoose a) (nodeProps isLoose b)
                  (map fst (nodeProps isLoose a)) then False
      else if (hasProperty ''children'' (nodeProps isLoose a) \<or> hasProperty ''children'' (nodeProps isLoose b))
              \<and> \<not> internalChildrenCompare (internalNodeCompare isEqual lenComp isLoose)
                    (childrenOf isLoose a) (childrenOf isLoose b) then False
      else if \<not> isTextualNode a
        then lenComp (int (length (nodeProps isLoose a)) - of_bool (hasProperty ''children'' (nodeProps isLoose a)))
                     (int (length (nodeProps isLoose b)) - of_bool (hasProperty ''children'' (nodeProps isLoose b)))
      else False)"
  by pat_completeness auto
termination
  by (relation "measure (\<lambda>(isEqual, lenComp, isLoose, a, b). size a)") (auto dest: childrenOf_size)

declare internalNodeCompare.simps [simp del]

text \<open>
  The two entry points. \<^verbatim>\<open>lenComp\<close> defaults to \<^verbatim>\<open>Object.is\<close>, which on the key counts
  it is given is equality of integers. Inside \<^verbatim>\<open>internalChildrenCompare\<close> the source picks
  \<^verbatim>\<open>nodeMatches\<close> or \<^verbatim>\<open>nodeEqual\<close> by \<^verbatim>\<open>isLoose\<close> and hands \<^verbatim>\<open>lenComp\<close> on: that is the
  recursive call above. Its three opening tests (same array, neither an array, both
  missing) cannot fire there, since both arguments are arrays freshly built by
  \<^verbatim>\<open>childrenToSimplifiedArray\<close>. \<^verbatim>\<open>isEqual\<close> is lodash's deep equality, a parameter here.
\<close>

definition object_is :: "int \<Rightarrow> int \<Rightarrow> bool" where
  "object_is x y = (x = y)"

definition nodeEqual :: "(jsval \<Rightarrow> jsval \<Rightarrow> bool) \<Rightarrow> (int \<Rightarrow> int \<Rightarrow> bool) \<Rightarrow> jsval \<Rightarrow> jsval \<Rightarrow> bool" where
  "nodeEqual isEqual lenComp a b = internalNodeCompare isEqual lenComp False a b"

definition nodeMatches :: "(jsval \<Rightarrow> jsval \<Rightarrow> bool) \<Rightarrow> (int \<Rightarrow> int \<Rightarrow> bool) \<Rightarrow> jsval \<Rightarrow> jsval \<Rightarrow> bool" where
  "nodeMatches isEqual lenComp a b = internalNodeCompare isEqual lenComp True a b"

section \<open>Errors and traversal (contains/RSTTraversal.js)\<close>

text \<open>
  What a call can throw: the wrapper's own \<^verbatim>\<open>Error\<close>s by the kind of their message
  (the single-node message carries the method name and the length found), the
  \<^verbatim>\<open>TypeError\<close>s it raises on a bad argument, the \<^verbatim>\<open>TypeError\<close>s of the runtime (a
  property read on null or undefined, a call of something that is no function, a spread
  of something that cannot be iterated), and whatever a collaborator throws.
\<close>

datatype error =
    SingleNodeRequired string nat
  | RootRequired string
  | InvalidArgument string
  | OtherError string
  | NullDereference string
  | NotAFunction string
  | NotIterable
  | Thrown jsval

definition nullish :: "jsval \<Rightarrow> bool" where
  "nullish v = (v = JNull \<or> v = JUndefined)"

text \<open>\<^verbatim>\<open>v.k\<close> on any value: a \<^verbatim>\<open>TypeError\<close> on null and undefined.\<close>

definition read :: "jsval \<Rightarrow> string \<Rightarrow> error + jsval" where
  "read v k = (if nullish v then Inl (NullDereference k) else Inr (get v k))"

text \<open>
  \<^verbatim>\<open>treeForEach(tree, fn)\<close>. The visitor \<^verbatim>\<open>fn\<close> works on a state \<^typ>\<open>'s\<close> (for
  \<^verbatim>\<open>treeFilter\<close> the \<^verbatim>\<open>results\<close> array) and may throw. The second statement of the source,
  \<^verbatim>\<open>tree.children.forEach(...)\<close>, stands outside the \<^verbatim>\<open>if\<close>.
\<close>

function treeForEach :: "(jsval \<Rightarrow> 's \<Rightarrow> error + 's) \<Rightarrow> jsval \<Rightarrow> 's \<Rightarrow> error + 's"
  and forEachNode :: "(jsval \<Rightarrow> 's \<Rightarrow> error + 's) \<Rightarrow> jsval list \<Rightarrow> 's \<Rightarrow> error + 's" where
  "treeForEach fn tree s =
     (case (if tree \<noteq> JNull \<and> tree \<noteq> JBool False \<and> typeof tree \<noteq> ''undefined''
            then fn tree s else Inr s) of
        Inl e \<Rightarrow> Inl e
      | Inr s' \<Rightarrow>
          (case read tree ''children'' of
             Inl e \<Rightarrow> Inl e
           | Inr (JArr r nodes) \<Rightarrow> forEachNode fn nodes s'
           | Inr other \<Rightarrow> Inl (if nullish other then NullDereference ''forEach''
                                else NotAFunction ''forEach'')))"
| "forEachNode fn [] s = Inr s"
| "forEachNode fn (node # nodes) s =
     (case treeForEach fn node s of
        Inl e \<Rightarrow> Inl e
      | Inr s' \<Rightarrow> forEachNode fn nodes s')"
  by pat_completeness auto
termination
proof (relation "measure (\<lambda>x. case x of Inl (fn, tree, s) \<Rightarrow> 2 * size tree
                                       | Inr (fn, nodes, s) \<Rightarrow> 2 * size_list size nodes + 1)")
  show "wf (measure (\<lambda>x. case x of Inl (fn, tree, s) \<Rightarrow> 2 * size tree
                                       | Inr (fn, nodes, (s::'s)) \<Rightarrow> 2 * size_list size nodes + 1))"
    by simp
next
  fix fn :: "jsval \<Rightarrow> 's \<Rightarrow> error + 's" and tree s x2 x2a r nodes
  assume "read tree ''children'' = Inr x2a" "x2a = JArr r nodes"
  then have "get tree ''children'' = JArr r nodes" by (auto simp: read_def split: if_splits)
  then have "size (JArr r nodes) < size tree" using get_size[of "''children''" tree] by simp
  then show "(Inr (fn, nodes, x2), Inl (fn, tree, s)) \<in> measure (\<lambda>x. case x of Inl (fn, tree, s) \<Rightarrow> 2 * size tree
                                       | Inr (fn, nodes, s) \<Rightarrow> 2 * size_list size nodes + 1)"
    by simp
qed auto

definition treeFilter :: "(jsval \<Rightarrow> error + jsval) \<Rightarrow> jsval \<Rightarrow> error + jsval list" where
  "treeFilter fn tree =
     treeForEach (\<lambda>node results. case fn node of Inl e \<Rightarrow> Inl e
                    | Inr v \<Rightarrow> Inr (if truthy v then results @ [node] else results)) tree []"

section \<open>The wrapper (ReactMountWrapper)\<close>

subsection \<open>Array helpers\<close>

definition andThen :: "error + 'a \<Rightarrow> ('a \<Rightarrow> error + 'b) \<Rightarrow> error + 'b" where
  "andThen r f = (case r of Inl e \<Rightarrow> Inl e | Inr x \<Rightarrow> f x)"

text \<open>\<^verbatim>\<open>xs[i]\<close>: undefined outside the array.\<close>

definition index :: "jsval list \<Rightarrow> int \<Rightarrow> jsval" where
  "index xs i = (if 0 \<le> i \<and> i < int (length xs) then xs ! nat i else JUndefined)"

text \<open>An array the code has just built; no function that receives it looks at its reference.\<close>

definition array :: "jsval list \<Rightarrow> jsval" where
  "array xs = JArr 0 xs"

text \<open>The literals \<^verbatim>\<open>{}\<close> and \<^verbatim>\<open>() => {}\<close> (the \<^verbatim>\<open>noop\<close> of the module).\<close>

definition emptyObject :: jsval where
  "emptyObject = JObj 0 []"

definition noop :: jsval where
  "noop = JFun 0 []"

text \<open>\<^verbatim>\<open>Array.prototype.map\<close>, \<^verbatim>\<open>filter\<close>, \<^verbatim>\<open>reduce\<close>, \<^verbatim>\<open>every\<close> and \<^verbatim>\<open>some\<close> with a callback that may throw.\<close>

fun mapE :: "('a \<Rightarrow> error + 'b) \<Rightarrow> 'a list \<Rightarrow> error + 'b list" where
  "mapE f [] = Inr []"
| "mapE f (x # xs) = andThen (f x) (\<lambda>y. andThen (mapE f xs) (\<lambda>ys. Inr (y # ys)))"

fun filterE :: "('a \<Rightarrow> error + jsval) \<Rightarrow> 'a list \<Rightarrow> error + 'a list" where
  "filterE p [] = Inr []"
| "filterE p (x # xs) =
     andThen (p x) (\<lambda>v. andThen (filterE p xs) (\<lambda>ys. Inr (if truthy v then x # ys else ys)))"

fun reduceE :: "('b \<Rightarrow> 'a \<Rightarrow> error + 'b) \<Rightarrow> 'b \<Rightarrow> 'a list \<Rightarrow> error + 'b" where
  "reduceE f acc [] = Inr acc"
| "reduceE f acc (x # xs) = andThen (f acc x) (\<lambda>acc'. reduceE f acc' xs)"

fun everyE :: "('a \<Rightarrow> error + jsval) \<Rightarrow> 'a list \<Rightarrow> error + jsval" where
  "everyE f [] = Inr (JBool True)"
| "everyE f (x # xs) = andThen (f x) (\<lambda>v. if truthy v then everyE f xs else Inr (JBool False))"

fun someE :: "('a \<Rightarrow> error + jsval) \<Rightarrow> 'a list \<Rightarrow> error + jsval" where
  "someE f [] = Inr (JBool False)"
| "someE f (x # xs) = andThen (f x) (\<lambda>v. if truthy v then Inr (JBool True) else someE f xs)"

text \<open>\<^verbatim>\<open>[...v]\<close>: the elements of an array, the characters of a string, a \<^verbatim>\<open>TypeError\<close> otherwise.\<close>

fun spread :: "jsval \<Rightarrow> error + jsval list" where
  "spread (JArr r xs) = Inr xs"
| "spread (JStr s) = Inr (map (\<lambda>c. JStr [c]) s)"
| "spread v = Inl NotIterable"

text \<open>\<^verbatim>\<open>v[0]\<close>.\<close>

fun first_of :: "jsval \<Rightarrow> error + jsval" where
  "first_of (JArr r xs) = Inr (index xs 0)"
| "first_of (JStr s) = Inr (case s of [] \<Rightarrow> JUndefined | c # cs \<Rightarrow> JStr [c])"
| "first_of v = read v ''0''"

text \<open>\<^verbatim>\<open>compact\<close> of lodash keeps the truthy elements.\<close>

definition compact :: "jsval list \<Rightarrow> jsval list" where
  "compact xs = filter truthy xs"

definition flatMap :: "jsval list \<Rightarrow> (jsval \<Rightarrow> error + jsval) \<Rightarrow> error + jsval list" where
  "flatMap collection fn =
     andThen (mapE fn collection)
       (reduceE (\<lambda>existing curr. andThen (spread curr) (\<lambda>cs. Inr (existing @ cs))) [])"

definition findWhereUnwrapped :: "jsval list \<Rightarrow> (jsval \<Rightarrow> error + jsval) \<Rightarrow> error + jsval list" where
  "findWhereUnwrapped insts predicate =
     flatMap insts (\<lambda>n. andThen (treeFilter predicate n) (\<lambda>found. Inr (array found)))"

definition filterWhereUnwrapped :: "jsval list \<Rightarrow> (jsval \<Rightarrow> error + jsval) \<Rightarrow> error + jsval list" where
  "filterWhereUnwrapped insts predicate =
     andThen (filterE predicate insts) (\<lambda>kept. Inr (compact kept))"

subsection \<open>The class\<close>

record wrapper =
  instances :: "jsval list"
  rootRef :: jsval
  rootElement :: jsval
  renderer :: jsval
  length_w :: nat

definition ReactMountWrapper :: "jsval list \<Rightarrow> jsval \<Rightarrow> jsval \<Rightarrow> jsval \<Rightarrow> wrapper" where
  "ReactMountWrapper insts ref element rend =
     \<lparr>instances = insts, rootRef = ref, rootElement = element, renderer = rend,
      length_w = length insts\<rparr>"

text \<open>
  \<^verbatim>\<open>this.rootNode\<close>: neither the constructor nor any method assigns a property of this
  name, so reading it gives undefined.
\<close>

definition rootNode :: "wrapper \<Rightarrow> jsval" where
  "rootNode this = JUndefined"

definition wrap :: "wrapper \<Rightarrow> jsval list \<Rightarrow> wrapper" where
  "wrap this insts = ReactMountWrapper insts (rootRef this) (rootNode this) (renderer this)"

text \<open>What a method hands back: a wrapper, or a plain array of nodes.\<close>

datatype returned = Wrapper wrapper | PlainArray "jsval list"

text \<open>
  A call into a collaborator (the renderer, the root component): receiver, method name
  and arguments. What the collaborator then does is outside this theory.
\<close>

datatype effect = Call jsval string "jsval list"

definition invoke :: "jsval \<Rightarrow> string \<Rightarrow> jsval list \<Rightarrow> error + effect" where
  "invoke receiver method args =
     (if nullish receiver then Inl (NullDereference method) else Inr (Call receiver method args))"

definition isRoot :: "wrapper \<Rightarrow> error + jsval" where
  "isRoot this =
     (let first = index (instances this) 0 in
      if \<not> truthy first then Inr first
      else andThen (read first ''parent'') (\<lambda>parent.
           andThen (read parent ''instance'') (\<lambda>inst.
           Inr (JBool (strict_eq inst (rootRef this))))))"

text \<open>The guard \<^verbatim>\<open>if (!this.isRoot()) throw new Error('ReactWrapper::op() can only be called on the root')\<close>.\<close>

definition rootOnly :: "wrapper \<Rightarrow> string \<Rightarrow> (error + 'a) \<Rightarrow> error + 'a" where
  "rootOnly this op rest =
     andThen (isRoot this) (\<lambda>root. if \<not> truthy root then Inl (RootRequired op) else rest)"

text \<open>
  \<^verbatim>\<open>single(name, fn)\<close>. Every call in the class passes a string and a function, so
  \<^verbatim>\<open>fnName\<close> is the name and \<^verbatim>\<open>callback\<close> the function.
\<close>

definition single :: "wrapper \<Rightarrow> string \<Rightarrow> (jsval \<Rightarrow> error + 'a) \<Rightarrow> error + 'a" where
  "single this fnName callback =
     (if length_w this \<noteq> 1 then Inl (SingleNodeRequired fnName (length_w this))
      else callback (index (instances this) 0))"

subsection \<open>Single-node accessors\<close>

definition props :: "wrapper \<Rightarrow> error + jsval" where
  "props this = single this ''props'' (\<lambda>instance. read instance ''props'')"

definition prop_w :: "wrapper \<Rightarrow> string \<Rightarrow> error + jsval" where
  "prop_w this propName = andThen (props this) (\<lambda>p. read p propName)"

definition instance_w :: "wrapper \<Rightarrow> error + jsval" where
  "instance_w this = single this ''instance'' (\<lambda>instance. read instance ''instance'')"

definition type_w :: "wrapper \<Rightarrow> error + jsval" where
  "type_w this = single this ''type'' (\<lambda>instance. read instance ''type'')"

definition key :: "wrapper \<Rightarrow> error + jsval" where
  "key this = single this ''key'' (\<lambda>instance.
     andThen (read instance ''_fiber'') (\<lambda>fiber.
     andThen (read fiber ''key'') (\<lambda>k.
     Inr (if k = JUndefined then JNull else k))))"

definition name :: "wrapper \<Rightarrow> error + jsval" where
  "name this = single this ''name'' (\<lambda>instance.
     andThen (read instance ''type'') (\<lambda>type.
     andThen (read type ''displayName'') (\<lambda>displayName.
     if truthy displayName then Inr displayName
     else andThen (read type ''name'') (\<lambda>n. Inr (if truthy n then n else type)))))"

definition state :: "wrapper \<Rightarrow> string option \<Rightarrow> error + jsval" where
  "state this name' =
     rootOnly this ''state''
       (andThen (single this ''state'' (\<lambda>instance.
                   andThen (read instance ''instance'') (\<lambda>inst. read inst ''state'')))
          (\<lambda>state'. case name' of Some n \<Rightarrow> read state' n | None \<Rightarrow> Inr state'))"

definition context_w :: "wrapper \<Rightarrow> string option \<Rightarrow> error + jsval" where
  "context_w this name' =
     rootOnly this ''context''
       (andThen (single this ''context'' (\<lambda>instance. read instance ''instance''))
          (\<lambda>rootInstance.
             if rootInstance = JNull
             then Inl (OtherError ''ReactWrapper::context() can only be called on components with instances'')
             else andThen (read rootInstance ''context'')
                    (\<lambda>context'. case name' of Some n \<Rightarrow> read context' n | None \<Rightarrow> Inr context')))"

subsection \<open>Root-only mutation and lifecycle\<close>

definition setProps :: "wrapper \<Rightarrow> jsval \<Rightarrow> jsval \<Rightarrow> error + effect \<times> wrapper" where
  "setProps this props' callback =
     rootOnly this ''setProps''
       (let callback = (if callback = JUndefined then noop else callback) in
        if typeof callback \<noteq> ''function''
        then Inl (InvalidArgument ''ReactWrapper::setProps() expects a function as its second argument'')
        else andThen (invoke (rootRef this) ''setChildProps'' [props', emptyObject, callback])
               (\<lambda>eff. Inr (eff, this)))"

text \<open>
  \<^verbatim>\<open>setState\<close> hands the component \<^verbatim>\<open>() => { callback(); }\<close>; the call records the
  callback that closure runs.
\<close>

definition setState :: "wrapper \<Rightarrow> jsval \<Rightarrow> jsval \<Rightarrow> error + effect \<times> wrapper" where
  "setState this state' callback =
     rootOnly this ''setState''
       (let callback = (if callback = JUndefined then noop else callback) in
        if typeof callback \<noteq> ''function''
        then Inl (InvalidArgument ''ReactWrapper::setState() expects a function as its second argument'')
        else andThen (instance_w this) (\<lambda>inst.
             andThen (invoke inst ''setState'' [state', callback])
               (\<lambda>eff. Inr (eff, this))))"

definition setContext :: "wrapper \<Rightarrow> jsval \<Rightarrow> error + effect \<times> wrapper" where
  "setContext this context' =
     rootOnly this ''setContext''
       (andThen (read (index (instances this) 0) ''parent'') (\<lambda>parent.
        andThen (read parent ''props'') (\<lambda>parentProps.
        andThen (read parentProps ''context'') (\<lambda>passed.
        if \<not> truthy passed
        then Inl (OtherError ''ShallowWrapper::setContext() can only be called on a wrapper that was originally passed a context option'')
        else andThen (invoke (rootRef this) ''setChildProps'' [emptyObject, context'])
               (\<lambda>eff. Inr (eff, this))))))"

definition mount :: "wrapper \<Rightarrow> error + effect \<times> wrapper" where
  "mount this =
     rootOnly this ''mount''
       (andThen (invoke (renderer this) ''render'' [rootElement this, emptyObject])
          (\<lambda>eff. Inr (eff, this)))"

subsection \<open>Query methods\<close>

text \<open>
  \<^verbatim>\<open>buildPredicate\<close> and \<^verbatim>\<open>reduceTreesBySelector\<close> of \<^verbatim>\<open>./selectors\<close> and
  \<^verbatim>\<open>elementToInstance\<close> (the test renderer) are collaborators: parameters
  \<open>buildPredicate\<close>, \<open>reduceTreesBySelector\<close> and \<open>elementToInstance\<close> of the
  methods that call them. A predicate takes a node and returns a value or throws.
\<close>

definition at_w :: "wrapper \<Rightarrow> int \<Rightarrow> wrapper" where
  "at_w this i = wrap this [index (instances this) i]"

definition filter_w ::
  "(jsval \<Rightarrow> error + (jsval \<Rightarrow> error + jsval)) \<Rightarrow> wrapper \<Rightarrow> jsval \<Rightarrow> error + wrapper" where
  "filter_w buildPredicate this selector =
     andThen (buildPredicate selector) (\<lambda>predicate.
     andThen (filterWhereUnwrapped (instances this) predicate) (\<lambda>kept.
     Inr (wrap this kept)))"

definition getNodesInternal :: "wrapper \<Rightarrow> jsval list" where
  "getNodesInternal this = instances this"

definition filterWhere :: "wrapper \<Rightarrow> (wrapper \<Rightarrow> error + jsval) \<Rightarrow> error + wrapper" where
  "filterWhere this predicate =
     andThen (filterE predicate (map (\<lambda>instance. wrap this [instance]) (instances this)))
       (\<lambda>kept. Inr (wrap this (foldl (\<lambda>existing current. existing @ getNodesInternal current) [] kept)))"

definition not_w ::
  "(jsval \<Rightarrow> error + (jsval \<Rightarrow> error + jsval)) \<Rightarrow> wrapper \<Rightarrow> jsval \<Rightarrow> error + returned" where
  "not_w buildPredicate this selector =
     andThen (buildPredicate selector) (\<lambda>predicate.
     andThen (filterWhereUnwrapped (instances this)
                (\<lambda>n. andThen (predicate n) (\<lambda>v. Inr (JBool (\<not> truthy v))))) (\<lambda>kept.
     Inr (PlainArray kept)))"

definition find_w ::
  "(jsval \<Rightarrow> jsval list \<Rightarrow> error + jsval list) \<Rightarrow> wrapper \<Rightarrow> jsval \<Rightarrow> error + wrapper" where
  "find_w reduceTreesBySelector this selector =
     andThen (reduceTreesBySelector selector (instances this)) (\<lambda>found. Inr (wrap this found))"

definition children ::
  "(jsval \<Rightarrow> error + (jsval \<Rightarrow> error + jsval)) \<Rightarrow> wrapper \<Rightarrow> jsval \<Rightarrow> error + wrapper" where
  "children buildPredicate this selector =
     andThen (flatMap (instances this) (\<lambda>instance. read instance ''children'')) (\<lambda>cs.
     let childWrapper = wrap this cs in
     if truthy selector then filter_w buildPredicate childWrapper selector else Inr childWrapper)"

function parentsOfInstance :: "jsval \<Rightarrow> jsval \<Rightarrow> jsval list \<Rightarrow> error + jsval list" where
  "parentsOfInstance ref instance parents' =
     (case read instance ''parent'' of
        Inl e \<Rightarrow> Inl e
      | Inr parent \<Rightarrow>
          if truthy parent \<and> strict_eq (get parent ''instance'') ref then Inr parents'
          else parentsOfInstance ref parent (parents' @ [parent]))"
  by pat_completeness auto
termination
proof (relation "measure (\<lambda>(ref, instance, parents'). if nullish instance then 0 else Suc (size instance))")
  fix ref node :: jsval and parents' :: "jsval list" and parent
  assume r: "read node ''parent'' = Inr parent"
  then have n: "\<not> nullish node" and p: "parent = get node ''parent''"
    by (auto simp: read_def split: if_splits)
  have "\<not> nullish parent \<Longrightarrow> size parent < size node"
    using get_size[of "''parent''" node] p by (auto simp: nullish_def)
  with n show "((ref, parent, parents' @ [parent]), ref, node, parents')
      \<in> measure (\<lambda>(ref, instance, parents'). if nullish instance then 0 else Suc (size instance))"
    by auto
qed simp

definition parents ::
  "(jsval \<Rightarrow> error + (jsval \<Rightarrow> error + jsval)) \<Rightarrow> wrapper \<Rightarrow> jsval \<Rightarrow> error + wrapper" where
  "parents buildPredicate this selector =
     andThen (single this ''parents'' (\<lambda>instance. parentsOfInstance (rootRef this) instance [])) (\<lambda>ps.
     let allParents = wrap this ps in
     if truthy selector then filter_w buildPredicate allParents selector else Inr allParents)"

definition parent_w :: "wrapper \<Rightarrow> error + wrapper" where
  "parent_w this =
     andThen (mapE (\<lambda>instance. read instance ''parent'') (instances this))
       (\<lambda>ps. Inr (wrap this ps))"

text \<open>\<^verbatim>\<open>Array.prototype.slice(begin, end)\<close>; \<open>None\<close> is an argument left out.\<close>

definition relativeIndex :: "int \<Rightarrow> int \<Rightarrow> int" where
  "relativeIndex len k = (if k < 0 then max (len + k) 0 else min k len)"

definition slice_array :: "jsval list \<Rightarrow> int option \<Rightarrow> int option \<Rightarrow> jsval list" where
  "slice_array xs begin' end' =
     (let len = int (length xs);
          k = (case begin' of None \<Rightarrow> 0 | Some b \<Rightarrow> relativeIndex len b);
          final = (case end' of None \<Rightarrow> len | Some e \<Rightarrow> relativeIndex len e)
      in take (nat (final - k)) (drop (nat k) xs))"

definition slice :: "wrapper \<Rightarrow> int option \<Rightarrow> int option \<Rightarrow> wrapper" where
  "slice this begin' end' = wrap this (slice_array (instances this) begin' end')"

subsection \<open>Element containment\<close>

definition containsMatchingElement ::
  "(jsval \<Rightarrow> jsval \<Rightarrow> bool) \<Rightarrow> (jsval \<Rightarrow> error + jsval) \<Rightarrow> wrapper \<Rightarrow> jsval \<Rightarrow> error + jsval" where
  "containsMatchingElement isEqual elementToInstance this node =
     andThen (elementToInstance node) (\<lambda>argInstance.
     let predicate = (\<lambda>other.
           andThen (read argInstance ''children'') (\<lambda>cs.
           andThen (first_of cs) (\<lambda>c0.
           Inr (JBool (nodeMatches isEqual (\<lambda>a b. a \<le> b) c0 other)))))
     in andThen (findWhereUnwrapped (instances this) predicate) (\<lambda>found.
        Inr (JBool (length found > 0))))"

definition containsAllMatchingElements ::
  "(jsval \<Rightarrow> jsval \<Rightarrow> bool) \<Rightarrow> (jsval \<Rightarrow> error + jsval) \<Rightarrow> wrapper \<Rightarrow> jsval \<Rightarrow> error + jsval" where
  "containsAllMatchingElements isEqual elementToInstance this nodes =
     (if \<not> isArray nodes then Inl (InvalidArgument ''nodes should be an Array'')
      else andThen (spread nodes)
             (everyE (\<lambda>node. containsMatchingElement isEqual elementToInstance this node)))"

definition containsAnyMatchingElements ::
  "(jsval \<Rightarrow> jsval \<Rightarrow> bool) \<Rightarrow> (jsval \<Rightarrow> error + jsval) \<Rightarrow> wrapper \<Rightarrow> jsval \<Rightarrow> error + jsval" where
  "containsAnyMatchingElements isEqual elementToInstance this nodes =
     (if \<not> isArray nodes then Inr (JBool False)
      else andThen (spread nodes)
             (someE (\<lambda>node. containsMatchingElement isEqual elementToInstance this node)))"

section \<open>Predicates of the proofs\<close>

text \<open>
  A sequence is separated when no two neighbours are both textual and nothing in it is
  null, false or undefined.
\<close>

definition separated :: "jsval list \<Rightarrow> bool" where
  "separated xs = (successively (\<lambda>x y. \<not> (isTextualNode x \<and> isTextualNode y)) xs \<and> (\<forall>x \<in> set xs. \<not> skipped x))"

text \<open>
  A render node, for the comparator: a string or a number, or a value with a defined
  \<^verbatim>\<open>type\<close> whose props have no key that names a member of \<^verbatim>\<open>Object.prototype\<close> and
  whose \<^verbatim>\<open>props.children\<close> (null, false and undefined left out, as \<^verbatim>\<open>childrenToArray\<close>
  does) are render nodes.
\<close>

lemma childrenOfProps_size:
  "x \<in> set (childrenToArray (lookup (propsOfNode v) ''children'')) \<Longrightarrow> size x < size v"
proof -
  assume x: "x \<in> set (childrenToArray (lookup (propsOfNode v) ''children''))"
  let ?c = "lookup (propsOfNode v) ''children''"
  from x have "?c \<noteq> JUndefined" by (auto simp: skipped_def)
  then have "size ?c < size v" using lookup_in propsOfNode_values by blast
  moreover have "size x \<le> size ?c" using x by (rule childrenToArray_size)
  ultimately show ?thesis by simp
qed

function renderNode :: "jsval \<Rightarrow> bool" where
  "renderNode v =
     (isTextualNode v
      \<or> (get v ''type'' \<noteq> JUndefined
          \<and> list_all (\<lambda>key. key \<notin> set objectPrototypeNames) (map fst (nodeEntries v))
          \<and> list_all renderNode (childrenToArray (member (propsOfNode v) ''children''))))"
  by pat_completeness auto
termination
  by (relation "measure size") (auto dest: childrenOfProps_size)

declare renderNode.simps [simp del]

lemma array_element_size:
  "get tree ''children'' = JArr r nodes \<Longrightarrow> node \<in> set nodes \<Longrightarrow> size node < size tree"
proof -
  assume g: "get tree ''children'' = JArr r nodes" and n: "node \<in> set nodes"
  from n have "size node \<le> size_list size nodes" by (induction nodes) auto
  moreover from g have "size (JArr r nodes) < size tree"
    using get_size[of "''children''" tree] by simp
  ultimately show ?thesis by simp
qed

text \<open>
  The pre-order listing of a tree, and the trees all of whose nodes carry an array of
  children (no text leaves, nothing absent).
\<close>

function preorder :: "jsval \<Rightarrow> jsval list" where
  "preorder tree =
     tree # (case get tree ''children'' of
               JArr r nodes \<Rightarrow> concat (map preorder nodes)
             | _ \<Rightarrow> [])"
  by pat_completeness auto
termination
  by (relation "measure size") (auto dest: array_element_size)

function elementTree :: "jsval \<Rightarrow> bool" where
  "elementTree tree =
     (case get tree ''children'' of
        JArr r nodes \<Rightarrow> list_all elementTree nodes
      | _ \<Rightarrow> False)"
  by pat_completeness auto
termination
  by (relation "measure size") (auto dest: array_element_size)

declare preorder.simps [simp del] elementTree.simps [simp del]

text \<open>
  What the loop over \<^verbatim>\<open>leftKeys\<close> asks of one prop, and the key count the final
  \<^verbatim>\<open>lenComp\<close> receives.
\<close>

definition valueEq :: "(jsval \<Rightarrow> jsval \<Rightarrow> bool) \<Rightarrow> jsval \<Rightarrow> jsval \<Rightarrow> bool" where
  "valueEq isEqual r l =
     (strict_eq r l \<or> (typeof r = typeof l \<and> typeof l = ''object'' \<and> isEqual l r))"

definition ownCount :: "(string \<times> jsval) list \<Rightarrow> int" where
  "ownCount obj = int (length obj) - of_bool (hasProperty ''children'' obj)"

section \<open>Sample trees\<close>

text \<open>
  \<^verbatim>\<open><div className="foo bar"/>\<close> and \<^verbatim>\<open><span>Hi</span>\<close> as render nodes under the
  root instance of a mounted tree, and a wrapper over both. \<open>typeSelector\<close> is a
  predicate builder for bare type selectors.
\<close>

definition sampleRootRef :: jsval where
  "sampleRootRef = JObj 1 []"

definition sampleRootInstance :: jsval where
  "sampleRootInstance = JObj 2 [(''instance'', sampleRootRef), (''parent'', JNull)]"

definition sampleDiv :: jsval where
  "sampleDiv = JObj 3 [(''type'', JStr ''div''),
                       (''props'', JObj 4 [(''className'', JStr ''foo bar'')]),
                       (''children'', JArr 5 []),
                       (''parent'', sampleRootInstance)]"

definition sampleSpan :: jsval where
  "sampleSpan = JObj 6 [(''type'', JStr ''span''),
                        (''props'', JObj 7 [(''children'', JStr ''Hi'')]),
                        (''children'', JArr 8 [JStr ''Hi'']),
                        (''parent'', sampleRootInstance)]"

definition sampleWrapper :: wrapper where
  "sampleWrapper = ReactMountWrapper [sampleDiv, sampleSpan] sampleRootRef (JStr ''element'') (JObj 9 [])"

definition typeSelector :: "jsval \<Rightarrow> error + (jsval \<Rightarrow> error + jsval)" where
  "typeSelector selector = Inr (\<lambda>node. Inr (JBool (strict_eq (get node ''type'') selector)))"

text \<open>
  \<^verbatim>\<open><div className="foo bar" title="x"/>\<close>, a second \<^verbatim>\<open><div className="foo bar"/>\<close>,
  \<^verbatim>\<open><div>{true}</div>\<close> and \<^verbatim>\<open><div>x</div>\<close>.
\<close>

definition sampleDivTitled :: jsval where
  "sampleDivTitled = JObj 13 [(''type'', JStr ''div''),
                       (''props'', JObj 14 [(''className'', JStr ''foo bar''), (''title'', JStr ''x'')]),
                       (''children'', JArr 15 []),
                       (''parent'', sampleRootInstance)]"

definition sampleDivCopy :: jsval where
  "sampleDivCopy = JObj 16 [(''type'', JStr ''div''),
                       (''props'', JObj 17 [(''className'', JStr ''foo bar'')]),
                       (''children'', JArr 18 []),
                       (''parent'', sampleRootInstance)]"

definition sampleDivTrue :: jsval where
  "sampleDivTrue = JObj 19 [(''type'', JStr ''div''), (''props'', JObj 20 [(''children'', JBool True)])]"

definition sampleDivText :: jsval where
  "sampleDivText = JObj 21 [(''type'', JStr ''div''), (''props'', JObj 22 [(''children'', JStr ''x'')])]"

text \<open>
  \<^verbatim>\<open><div constructor={Object}/>\<close>, whose one prop has the name and the value of a member of
  \<^verbatim>\<open>Object.prototype\<close>, and \<^verbatim>\<open><div foo={1}/>\<close>.
\<close>

definition sampleDivConstructor :: jsval where
  "sampleDivConstructor =
     JObj 23 [(''type'', JStr ''div''), (''props'', JObj 24 [(''constructor'', JFun 1000 [])])]"

definition sampleDivFoo :: jsval where
  "sampleDivFoo = JObj 25 [(''type'', JStr ''div''), (''props'', JObj 26 [(''foo'', JNum (Fin 1))])]"

text \<open>
  Two more stand-ins for collaborators: a \<^verbatim>\<open>reduceTreesBySelector\<close> that searches the
  subtrees with the predicate of \<open>typeSelector\<close>, and a predicate on wrappers that
  holds on host nodes.
\<close>

definition findByType :: "jsval \<Rightarrow> jsval list \<Rightarrow> error + jsval list" where
  "findByType selector insts = andThen (typeSelector selector) (findWhereUnwrapped insts)"

definition isHost :: "wrapper \<Rightarrow> error + jsval" where
  "isHost w = andThen (type_w w) (\<lambda>t. Inr (JBool (typeof t = ''string'')))"

text \<open>An empty wrapper is never root, so \<^verbatim>\<open>state\<close> and \<^verbatim>\<open>context\<close> report the root error on it.\<close>

definition emptyWrapper :: wrapper where
  "emptyWrapper = ReactMountWrapper [] sampleRootRef (JStr ''element'') (JObj 9 [])"

text \<open>A stand-in for the test renderer: the element becomes the only child of a root.\<close>

definition renderChildren :: "jsval \<Rightarrow> error + jsval" where
  "renderChildren element = Inr (JObj 30 [(''children'', JArr 31 [element])])"

section \<open>Properties of the children normalisation\<close>

lemma textual_plus: "isTextualNode a \<Longrightarrow> isTextualNode b \<Longrightarrow> isTextualNode (js_plus a b)"
  by (cases a; cases b) auto

lemma textual_not_skipped: "isTextualNode a \<Longrightarrow> \<not> skipped a"
  by (cases a) (auto simp: skipped_def)

lemma skipped_simps [simp]: "skipped JUndefined" "skipped JNull" "skipped (JBool False)"
  by (simp_all add: skipped_def)

lemma typeof_undefined: "typeof v = ''undefined'' \<longleftrightarrow> v = JUndefined"
  by (cases v) auto

lemma pop_snoc: "pop (xs @ [x]) = (x, xs)"
  by (simp add: pop_def)

lemma step_separated:
  assumes "separated acc" "\<not> skipped child"
  shows "separated (simplify_step acc child)"
proof (cases acc rule: rev_cases)
  case Nil
  with assms show ?thesis by (simp add: simplify_step_def separated_def pop_def)
next
  case (snoc ys y)
  with assms show ?thesis
    by (auto simp: simplify_step_def separated_def pop_snoc typeof_undefined
        successively_append_iff textual_plus textual_not_skipped)
qed


lemma simplified_separated_aux:
  "separated acc \<Longrightarrow> \<forall>x \<in> set xs. \<not> skipped x \<Longrightarrow> separated (foldl simplify_step acc xs)"
  by (induction xs arbitrary: acc) (auto simp: step_separated)

lemma foldl_separated_id:
  "separated (acc @ xs) \<Longrightarrow> foldl simplify_step acc xs = acc @ xs"
proof (induction xs arbitrary: acc)
  case Nil then show ?case by simp
next
  case (Cons x xs)
  have "simplify_step acc x = acc @ [x]"
  proof (cases acc rule: rev_cases)
    case Nil then show ?thesis by (simp add: simplify_step_def pop_def)
  next
    case (snoc ys y)
    with Cons.prems show ?thesis
      by (auto simp: simplify_step_def pop_snoc typeof_undefined separated_def successively_append_iff skipped_def)
  qed
  with Cons show ?case by simp
qed

text \<open>
  C4: \<^verbatim>\<open>childrenToSimplifiedArray\<close> is idempotent. Applied to the array it has returned
  (under any reference), it returns the same sequence; and no two neighbours of its
  output are both textual.
\<close>

theorem childrenToSimplifiedArray_idempotent:
  "childrenToSimplifiedArray (JArr r (childrenToSimplifiedArray c)) = childrenToSimplifiedArray c
   \<and> successively (\<lambda>x y. \<not> (isTextualNode x \<and> isTextualNode y)) (childrenToSimplifiedArray c)"
proof -
  have s: "separated (childrenToSimplifiedArray c)"
    unfolding childrenToSimplifiedArray_def
    by (rule simplified_separated_aux) (cases c; auto simp: separated_def)+
  then have "childrenToArray (JArr r (childrenToSimplifiedArray c)) = childrenToSimplifiedArray c"
    by (auto simp: separated_def filter_id_conv)
  with s show ?thesis
    using foldl_separated_id[of "[]" "childrenToSimplifiedArray c"]
    by (simp add: childrenToSimplifiedArray_def separated_def)
qed

theorem childrenToSimplifiedArray_idempotent_witness:
  "childrenToSimplifiedArray (JArr 0 [JStr ''a'', JNum (Fin 1), JNull, sampleDiv, JNum (Fin 2), JNum (Fin 3)])
     = [JStr ''a1'', sampleDiv, JNum (Fin 5)]
   \<and> childrenToSimplifiedArray (JArr 1 [JStr ''a1'', sampleDiv, JNum (Fin 5)])
     = [JStr ''a1'', sampleDiv, JNum (Fin 5)]"
proof -
  have "childrenToSimplifiedArray (JArr 0 [JStr ''a'', JNum (Fin 1), JNull, sampleDiv, JNum (Fin 2), JNum (Fin 3)])
     = [JStr ''a1'', sampleDiv, JNum (Fin 5)]"
    by code_simp
  then show ?thesis
    using childrenToSimplifiedArray_idempotent
      [of 1 "JArr 0 [JStr ''a'', JNum (Fin 1), JNull, sampleDiv, JNum (Fin 2), JNum (Fin 3)]"]
    by simp
qed

section \<open>Textual leaves in the comparator\<close>

lemma nodeProps_textual: "isTextualNode a \<Longrightarrow> nodeProps l a = []"
  by (cases a) (auto simp: nodeProps_def propsOfNode_def nodeEntries_def Let_def)

lemma childrenOf_textual: "isTextualNode a \<Longrightarrow> childrenOf l a = []"
  by (simp add: childrenOf_def nodeProps_textual lookup_def childrenToSimplifiedArray_def)

lemma internalNodeCompare_textual:
  assumes "isTextualNode a"
  shows "internalNodeCompare isEqual lenComp l a b = strict_eq a b"
  using assms
  by (subst internalNodeCompare.simps)
     (auto simp: nodeProps_textual childrenOf_textual hasProperty_children internalChildrenCompare_def)

text \<open>
  C5: for a string or a number \<open>a\<close>, \<^verbatim>\<open>nodeEqual(a, b)\<close> and \<^verbatim>\<open>nodeMatches(a, b)\<close>
  are true exactly when \<^verbatim>\<open>a === b\<close>, whatever \<^verbatim>\<open>lenComp\<close> is: past the identity test
  every path of the comparator returns false for a textual \<open>a\<close>.
\<close>

theorem textual_compare_is_identity:
  "isTextualNode a \<Longrightarrow>
     nodeEqual isEqual lenComp a b = strict_eq a b
     \<and> nodeMatches isEqual lenComp a b = strict_eq a b"
  by (simp add: nodeEqual_def nodeMatches_def internalNodeCompare_textual)

theorem textual_compare_is_identity_witness:
  "isTextualNode (JStr ''Hi'')
   \<and> nodeEqual (=) object_is (JStr ''Hi'') (JStr ''Hi'')
   \<and> \<not> nodeEqual (=) object_is (JStr ''Hi'') (JStr ''Bye'')
   \<and> \<not> nodeMatches (=) object_is (JStr ''Hi'') sampleSpan"
proof -
  have t: "isTextualNode (JStr ''Hi'')" by simp
  show ?thesis
    using textual_compare_is_identity[OF t, of "(=)" object_is "JStr ''Hi''"]
      textual_compare_is_identity[OF t, of "(=)" object_is "JStr ''Bye''"]
      textual_compare_is_identity[OF t, of "(=)" object_is sampleSpan]
    by (simp add: strict_eq_def sampleSpan_def)
qed

section \<open>Filtering\<close>

lemma andThen_Inr: "andThen r f = Inr y \<longleftrightarrow> (\<exists>x. r = Inr x \<and> f x = Inr y)"
  by (cases r) (auto simp: andThen_def)

lemma andThen_simps [simp]: "andThen (Inl e) f = Inl e" "andThen (Inr x) f = f x"
  by (simp_all add: andThen_def)

lemma filterE_sound:
  "filterE p xs = Inr ys \<Longrightarrow> subseq ys xs \<and> (\<forall>n \<in> set ys. \<exists>v. p n = Inr v \<and> truthy v)"
proof (induction xs arbitrary: ys)
  case Nil
  then show ?case by simp
next
  case (Cons x xs)
  from Cons.prems obtain v zs where v: "p x = Inr v" and zs: "filterE p xs = Inr zs"
    and ys: "ys = (if truthy v then x # zs else zs)"
    by (auto simp: andThen_Inr)
  from Cons.IH[OF zs] v ys show ?case by auto
qed

lemma filterE_returns:
  "\<forall>n \<in> set xs. \<exists>v. p n = Inr v \<Longrightarrow> \<exists>ys. filterE p xs = Inr ys"
  by (induction xs) auto

lemma filterWhereUnwrapped_sound:
  assumes "filterWhereUnwrapped xs p = Inr ys"
  shows "subseq ys xs \<and> (\<forall>n \<in> set ys. \<exists>v. p n = Inr v \<and> truthy v)"
proof -
  from assms obtain zs where zs: "filterE p xs = Inr zs" and ys: "ys = compact zs"
    by (auto simp: filterWhereUnwrapped_def andThen_Inr)
  from filterE_sound[OF zs] have "subseq zs xs" and a: "\<forall>n \<in> set zs. \<exists>v. p n = Inr v \<and> truthy v"
    by auto
  moreover have "subseq ys zs" by (simp add: ys compact_def)
  ultimately have "subseq ys xs" by (meson subseq_order.trans)
  with a ys show ?thesis by (auto simp: compact_def)
qed

lemma instances_wrap [simp]: "instances (wrap w xs) = xs"
  by (simp add: wrap_def ReactMountWrapper_def)

text \<open>
  C6: when \<^verbatim>\<open>w.filter(s)\<close> returns, every node of the result satisfies the predicate
  that \<^verbatim>\<open>buildPredicate(s)\<close> compiled, and the result's instances are a subsequence of
  those of \<open>w\<close>; and it does return when \<^verbatim>\<open>buildPredicate(s)\<close> yields a predicate that
  throws on none of the instances.
\<close>

theorem filter_w_sound:
  "(filter_w buildPredicate w s = Inr w' \<longrightarrow>
      (\<exists>predicate. buildPredicate s = Inr predicate
         \<and> (\<forall>n \<in> set (instances w'). \<exists>v. predicate n = Inr v \<and> truthy v)
         \<and> subseq (instances w') (instances w)))
   \<and> (buildPredicate s = Inr predicate \<and> (\<forall>n \<in> set (instances w). \<exists>v. predicate n = Inr v)
        \<longrightarrow> (\<exists>w''. filter_w buildPredicate w s = Inr w''))"
proof (intro conjI impI)
  assume "filter_w buildPredicate w s = Inr w'"
  then obtain predicate kept where p: "buildPredicate s = Inr predicate"
    and k: "filterWhereUnwrapped (instances w) predicate = Inr kept" and w': "w' = wrap w kept"
    by (auto simp: filter_w_def andThen_Inr)
  from filterWhereUnwrapped_sound[OF k] p w'
  show "\<exists>predicate. buildPredicate s = Inr predicate
         \<and> (\<forall>n \<in> set (instances w'). \<exists>v. predicate n = Inr v \<and> truthy v)
         \<and> subseq (instances w') (instances w)"
    by auto
next
  assume a: "buildPredicate s = Inr predicate \<and> (\<forall>n \<in> set (instances w). \<exists>v. predicate n = Inr v)"
  then obtain ys where "filterE predicate (instances w) = Inr ys"
    using filterE_returns[of "instances w" predicate] by auto
  with a show "\<exists>w''. filter_w buildPredicate w s = Inr w''"
    by (simp add: filter_w_def filterWhereUnwrapped_def)
qed

theorem filter_w_sound_witness:
  "filter_w typeSelector sampleWrapper (JStr ''div'') = Inr (wrap sampleWrapper [sampleDiv])
   \<and> (\<exists>predicate. typeSelector (JStr ''div'') = Inr predicate
         \<and> (\<forall>n \<in> set (instances sampleWrapper). \<exists>v. predicate n = Inr v)
         \<and> (\<forall>n \<in> set (instances (wrap sampleWrapper [sampleDiv])). \<exists>v. predicate n = Inr v \<and> truthy v)
         \<and> subseq (instances (wrap sampleWrapper [sampleDiv])) (instances sampleWrapper))
   \<and> (\<exists>w'. filter_w typeSelector sampleWrapper (JStr ''div'') = Inr w')"
proof -
  let ?p = "\<lambda>node. Inr (JBool (strict_eq (get node ''type'') (JStr ''div''))) :: error + jsval"
  have h: "filter_w typeSelector sampleWrapper (JStr ''div'') = Inr (wrap sampleWrapper [sampleDiv])"
    by code_simp
  have p: "typeSelector (JStr ''div'') = Inr ?p \<and> (\<forall>n \<in> set (instances sampleWrapper). \<exists>v. ?p n = Inr v)"
    by (simp add: typeSelector_def)
  from filter_w_sound[of typeSelector sampleWrapper "JStr ''div''" "wrap sampleWrapper [sampleDiv]" ?p] h p
  show ?thesis by auto
qed

section \<open>Single-node accessors\<close>

lemma single_wrong_length:
  "length_w w \<noteq> 1 \<Longrightarrow> single w op callback = Inl (SingleNodeRequired op (length_w w))"
  by (simp add: single_def)

lemma single_one: "length_w w = 1 \<Longrightarrow> single w op callback = callback (index (instances w) 0)"
  by (simp add: single_def)

lemma read_not_single: "read v k \<noteq> Inl (SingleNodeRequired op m)"
  by (simp add: read_def)

lemma andThen_not_single:
  "r \<noteq> Inl (SingleNodeRequired op m) \<Longrightarrow> (\<And>x. f x \<noteq> Inl (SingleNodeRequired op m))
   \<Longrightarrow> andThen r f \<noteq> Inl (SingleNodeRequired op m)"
  by (cases r) (auto simp: andThen_def)

lemma isRoot_not_single: "isRoot w \<noteq> Inl (SingleNodeRequired op m)"
  by (auto simp: isRoot_def Let_def read_def andThen_def split: sum.splits)

lemma rootOnly_not_single:
  "rest \<noteq> Inl (SingleNodeRequired op m) \<Longrightarrow> rootOnly w name' rest \<noteq> Inl (SingleNodeRequired op m)"
  unfolding rootOnly_def by (rule andThen_not_single) (auto simp: isRoot_not_single)

text \<open>
  C7 (as the code has it): on a wrapper whose length is not 1, \<^verbatim>\<open>props\<close>,
  \<^verbatim>\<open>prop\<close>, \<^verbatim>\<open>instance\<close>, \<^verbatim>\<open>type\<close>, \<^verbatim>\<open>key\<close> and \<^verbatim>\<open>name\<close> throw the single-node error,
  which carries the method name given to \<^verbatim>\<open>single\<close> (for \<^verbatim>\<open>prop\<close> that is \<^verbatim>\<open>props\<close>) and the
  length found. \<^verbatim>\<open>state\<close> and \<^verbatim>\<open>context\<close> test root-ness first: where that test gives a
  verdict they throw the root error off the root and the single-node error on it, and on
  a wrapper without instances the verdict is always off the root. On a wrapper of length
  1 no accessor throws the single-node error.
\<close>

theorem single_node_accessors:
  "(length_w w \<noteq> 1 \<longrightarrow>
      props w = Inl (SingleNodeRequired ''props'' (length_w w))
    \<and> prop_w w k = Inl (SingleNodeRequired ''props'' (length_w w))
    \<and> instance_w w = Inl (SingleNodeRequired ''instance'' (length_w w))
    \<and> type_w w = Inl (SingleNodeRequired ''type'' (length_w w))
    \<and> key w = Inl (SingleNodeRequired ''key'' (length_w w))
    \<and> name w = Inl (SingleNodeRequired ''name'' (length_w w))
    \<and> (\<forall>root. isRoot w = Inr root \<longrightarrow>
          state w n = Inl (if truthy root then SingleNodeRequired ''state'' (length_w w)
                           else RootRequired ''state'')
        \<and> context_w w n = Inl (if truthy root then SingleNodeRequired ''context'' (length_w w)
                           else RootRequired ''context'')))
   \<and> (instances w = [] \<longrightarrow>
        state w n = Inl (RootRequired ''state'') \<and> context_w w n = Inl (RootRequired ''context''))
   \<and> (length_w w = 1 \<longrightarrow>
        props w \<noteq> Inl (SingleNodeRequired op m)
      \<and> prop_w w k \<noteq> Inl (SingleNodeRequired op m)
      \<and> instance_w w \<noteq> Inl (SingleNodeRequired op m)
      \<and> type_w w \<noteq> Inl (SingleNodeRequired op m)
      \<and> key w \<noteq> Inl (SingleNodeRequired op m)
      \<and> name w \<noteq> Inl (SingleNodeRequired op m)
      \<and> state w n \<noteq> Inl (SingleNodeRequired op m)
      \<and> context_w w n \<noteq> Inl (SingleNodeRequired op m))"
proof (intro conjI impI allI)
  assume l: "length_w w \<noteq> 1"
  show "props w = Inl (SingleNodeRequired ''props'' (length_w w))"
    using l by (simp add: props_def single_wrong_length)
  then show "prop_w w k = Inl (SingleNodeRequired ''props'' (length_w w))"
    by (simp add: prop_w_def)
  show "instance_w w = Inl (SingleNodeRequired ''instance'' (length_w w))"
    using l by (simp add: instance_w_def single_wrong_length)
  show "type_w w = Inl (SingleNodeRequired ''type'' (length_w w))"
    using l by (simp add: type_w_def single_wrong_length)
  show "key w = Inl (SingleNodeRequired ''key'' (length_w w))"
    using l by (simp add: key_def single_wrong_length)
  show "name w = Inl (SingleNodeRequired ''name'' (length_w w))"
    using l by (simp add: name_def single_wrong_length)
  fix root assume r: "isRoot w = Inr root"
  show "state w n = Inl (if truthy root then SingleNodeRequired ''state'' (length_w w)
                           else RootRequired ''state'')"
    using l r by (simp add: state_def rootOnly_def single_wrong_length)
  show "context_w w n = Inl (if truthy root then SingleNodeRequired ''context'' (length_w w)
                           else RootRequired ''context'')"
    using l r by (simp add: context_w_def rootOnly_def single_wrong_length)
next
  assume e: "instances w = []"
  then have r: "isRoot w = Inr JUndefined" by (simp add: isRoot_def index_def)
  show "state w n = Inl (RootRequired ''state'')"
    using r by (simp add: state_def rootOnly_def)
  show "context_w w n = Inl (RootRequired ''context'')"
    using r by (simp add: context_w_def rootOnly_def)
next
  assume l: "length_w w = 1"
  show "props w \<noteq> Inl (SingleNodeRequired op m)"
    using l by (simp add: props_def single_one read_not_single)
  then show "prop_w w k \<noteq> Inl (SingleNodeRequired op m)"
    unfolding prop_w_def by (rule andThen_not_single) (rule read_not_single)
  show "instance_w w \<noteq> Inl (SingleNodeRequired op m)"
    using l by (simp add: instance_w_def single_one read_not_single)
  show "type_w w \<noteq> Inl (SingleNodeRequired op m)"
    using l by (simp add: type_w_def single_one read_not_single)
  show "key w \<noteq> Inl (SingleNodeRequired op m)"
    using l by (auto simp: key_def single_one andThen_def read_def split: sum.splits if_splits)
  show "name w \<noteq> Inl (SingleNodeRequired op m)"
    using l by (auto simp: name_def single_one andThen_def read_def split: sum.splits if_splits)
  show "state w n \<noteq> Inl (SingleNodeRequired op m)"
    unfolding state_def
    by (rule rootOnly_not_single)
       (use l in \<open>auto simp: single_one andThen_def read_def split: sum.splits if_splits option.splits\<close>)
  show "context_w w n \<noteq> Inl (SingleNodeRequired op m)"
    unfolding context_w_def
    by (rule rootOnly_not_single)
       (use l in \<open>auto simp: single_one andThen_def read_def split: sum.splits if_splits option.splits\<close>)
qed

text \<open>
  C7 as first stated fails on the empty wrapper: its length is 0, and \<^verbatim>\<open>state()\<close> and
  \<^verbatim>\<open>context()\<close> throw the root error, not the single-node error.
\<close>

theorem state_on_empty_wrapper_requires_root:
  "length_w emptyWrapper = 0
   \<and> state emptyWrapper None = Inl (RootRequired ''state'')
   \<and> state emptyWrapper None \<noteq> Inl (SingleNodeRequired ''state'' 0)
   \<and> context_w emptyWrapper None = Inl (RootRequired ''context'')"
  by code_simp

theorem single_node_accessors_witness:
  "length_w sampleWrapper \<noteq> 1
   \<and> props sampleWrapper = Inl (SingleNodeRequired ''props'' 2)
   \<and> prop_w sampleWrapper ''className'' = Inl (SingleNodeRequired ''props'' 2)
   \<and> isRoot sampleWrapper = Inr (JBool True)
   \<and> state sampleWrapper None = Inl (SingleNodeRequired ''state'' 2)
   \<and> length_w (at_w sampleWrapper 0) = 1
   \<and> props (at_w sampleWrapper 0) = Inr (JObj 4 [(''className'', JStr ''foo bar'')])
   \<and> state (at_w sampleWrapper 0) None \<noteq> Inl (SingleNodeRequired ''state'' 1)
   \<and> instances (at_w emptyWrapper 1) = [JUndefined]
   \<and> instances (slice sampleWrapper (Some 2) None) = []
   \<and> state (slice sampleWrapper (Some 2) None) None = Inl (RootRequired ''state'')"
proof -
  have a: "length_w sampleWrapper = 2" "isRoot sampleWrapper = Inr (JBool True)"
    "length_w (at_w sampleWrapper 0) = 1"
    "props (at_w sampleWrapper 0) = Inr (JObj 4 [(''className'', JStr ''foo bar'')])"
    "instances (at_w emptyWrapper 1) = [JUndefined]"
    "instances (slice sampleWrapper (Some 2) None) = []"
    by code_simp+
  with single_node_accessors[of sampleWrapper "''className''" None]
    single_node_accessors[of "at_w sampleWrapper 0" "''className''" None "''state''" 1]
    single_node_accessors[of "slice sampleWrapper (Some 2) None" "''className''" None]
  show ?thesis by simp
qed

section \<open>Root-only mutation\<close>

text \<open>Off the root, where \<^verbatim>\<open>isRoot\<close> gives its verdict, the three setters throw the root error.\<close>

lemma setters_off_root:
  "isRoot w = Inr root \<Longrightarrow> \<not> truthy root \<Longrightarrow>
     setProps w p cb = Inl (RootRequired ''setProps'')
     \<and> setState w st cb = Inl (RootRequired ''setState'')
     \<and> setContext w ctx = Inl (RootRequired ''setContext'')"
  by (simp add: setProps_def setState_def setContext_def rootOnly_def)

text \<open>
  C8 (where the code departs from it): \<^verbatim>\<open>isRoot\<close> reads \<^verbatim>\<open>first.parent.instance\<close> with no
  test of \<^verbatim>\<open>first.parent\<close>. The children of \<^verbatim>\<open><span>Hi</span>\<close> are the text leaf
  \<^verbatim>\<open>"Hi"\<close>, which has no parent, and the parent of a root child is the root instance,
  whose parent is null: on both wrappers the setters throw the runtime's
  \<^verbatim>\<open>TypeError\<close>, not the root error.
\<close>

theorem setters_on_parentless_node_raise_TypeError:
  "children typeSelector (at_w sampleWrapper 1) JUndefined = Inr (wrap sampleWrapper [JStr ''Hi''])
   \<and> setProps (wrap sampleWrapper [JStr ''Hi'']) p cb = Inl (NullDereference ''instance'')
   \<and> setState (wrap sampleWrapper [JStr ''Hi'']) st cb = Inl (NullDereference ''instance'')
   \<and> setContext (wrap sampleWrapper [JStr ''Hi'']) ctx = Inl (NullDereference ''instance'')
   \<and> parent_w (at_w sampleWrapper 0) = Inr (wrap sampleWrapper [sampleRootInstance])
   \<and> setProps (wrap sampleWrapper [sampleRootInstance]) p cb = Inl (NullDereference ''instance'')
   \<and> setState (wrap sampleWrapper [sampleRootInstance]) st cb = Inl (NullDereference ''instance'')
   \<and> setContext (wrap sampleWrapper [sampleRootInstance]) ctx = Inl (NullDereference ''instance'')"
proof -
  have "children typeSelector (at_w sampleWrapper 1) JUndefined = Inr (wrap sampleWrapper [JStr ''Hi''])"
    "parent_w (at_w sampleWrapper 0) = Inr (wrap sampleWrapper [sampleRootInstance])"
    "isRoot (wrap sampleWrapper [JStr ''Hi'']) = Inl (NullDereference ''instance'')"
    "isRoot (wrap sampleWrapper [sampleRootInstance]) = Inl (NullDereference ''instance'')"
    by code_simp+
  then show ?thesis by (simp add: setProps_def setState_def setContext_def rootOnly_def)
qed

section \<open>All-matching and any-matching checks\<close>

text \<open>
  C9 (as the code has it): on an argument that is no array,
  \<^verbatim>\<open>containsAllMatchingElements\<close> throws its \<^verbatim>\<open>TypeError\<close> and
  \<^verbatim>\<open>containsAnyMatchingElements\<close> returns false.
\<close>

theorem matching_checks_on_non_array:
  "\<not> isArray nodes \<Longrightarrow>
     containsAllMatchingElements isEqual elementToInstance w nodes
       = Inl (InvalidArgument ''nodes should be an Array'')
     \<and> containsAnyMatchingElements isEqual elementToInstance w nodes = Inr (JBool False)"
  by (simp add: containsAllMatchingElements_def containsAnyMatchingElements_def)

text \<open>
  C9 as first stated fails for \<^verbatim>\<open>containsAnyMatchingElements\<close>: given an element in place
  of an array it returns false.
\<close>

theorem containsAnyMatchingElements_non_array_returns_false:
  "\<not> isArray sampleDiv
   \<and> containsAnyMatchingElements (=) renderChildren sampleWrapper sampleDiv = Inr (JBool False)"
  by code_simp

theorem matching_checks_on_non_array_witness:
  "\<not> isArray (JStr ''div'')
   \<and> containsAllMatchingElements (=) renderChildren sampleWrapper (JStr ''div'')
       = Inl (InvalidArgument ''nodes should be an Array'')
   \<and> containsAnyMatchingElements (=) renderChildren sampleWrapper (JStr ''div'') = Inr (JBool False)"
proof -
  have a: "\<not> isArray (JStr ''div'')" by simp
  from matching_checks_on_non_array[OF a, of "(=)" renderChildren sampleWrapper] a show ?thesis by simp
qed

section \<open>Derived wrappers\<close>

lemma wrap_fields [simp]:
  "rootRef (wrap w xs) = rootRef w" "renderer (wrap w xs) = renderer w"
  "rootElement (wrap w xs) = JUndefined" "length_w (wrap w xs) = length xs"
  by (simp_all add: wrap_def ReactMountWrapper_def rootNode_def)

lemma filter_w_wrap: "filter_w bp w s = Inr w' \<Longrightarrow> \<exists>xs. w' = wrap w xs"
  by (auto simp: filter_w_def andThen_Inr wrap_def)

lemma wrap_wrap: "wrap (wrap w xs) ys = wrap w ys"
  by (simp add: wrap_def ReactMountWrapper_def rootNode_def)

lemma children_wrap: "children bp w s = Inr w' \<Longrightarrow> \<exists>xs. w' = wrap w xs"
  by (auto simp: children_def andThen_Inr Let_def wrap_wrap split: if_splits dest!: filter_w_wrap)

lemma parents_wrap: "parents bp w s = Inr w' \<Longrightarrow> \<exists>xs. w' = wrap w xs"
  by (auto simp: parents_def andThen_Inr Let_def wrap_wrap split: if_splits dest!: filter_w_wrap)

lemma filterWhere_wrap: "filterWhere w p = Inr w' \<Longrightarrow> \<exists>xs. w' = wrap w xs"
  by (auto simp: filterWhere_def andThen_Inr)

lemma find_w_wrap: "find_w rts w s = Inr w' \<Longrightarrow> \<exists>xs. w' = wrap w xs"
  by (auto simp: find_w_def andThen_Inr)



text \<open>
  C1 (where the code departs from it): \<^verbatim>\<open>not(selector)\<close> returns what
  \<^verbatim>\<open>filterWhereUnwrapped\<close> gives, a plain array, where \<^verbatim>\<open>filter(selector)\<close> wraps it.
\<close>

theorem not_w_returns_plain_array:
  "not_w typeSelector sampleWrapper (JStr ''span'') = Inr (PlainArray [sampleDiv])
   \<and> filter_w typeSelector sampleWrapper (JStr ''span'') = Inr (wrap sampleWrapper [sampleSpan])"
  by code_simp

section \<open>Traversal\<close>

text \<open>
  On a tree all of whose nodes carry an array of children, \<^verbatim>\<open>treeForEach\<close> with a visitor
  that does not throw returns, and has visited the nodes in pre-order; \<^verbatim>\<open>treeFilter\<close>
  returns the nodes of the pre-order listing that satisfy the predicate.
\<close>

lemma treeForEach_preorder:
  fixes f :: "jsval \<Rightarrow> 's \<Rightarrow> 's"
  shows "elementTree tree \<Longrightarrow> fn = (\<lambda>n s. Inr (f n s)) \<Longrightarrow>
           treeForEach fn tree s = Inr (foldl (\<lambda>s n. f n s) s (preorder tree))"
    and "list_all elementTree nodes \<Longrightarrow> fn = (\<lambda>n s. Inr (f n s)) \<Longrightarrow>
           forEachNode fn nodes s = Inr (foldl (\<lambda>s n. f n s) s (concat (map preorder nodes)))"
proof (induction fn tree s and fn nodes s rule: treeForEach_forEachNode.induct)
  case (1 fn tree s)
  from "1.prems"(1) obtain r nodes where c: "get tree ''children'' = JArr r nodes"
    and a: "list_all elementTree nodes"
    by (subst (asm) elementTree.simps) (auto split: jsval.splits)
  from c have t: "tree \<noteq> JNull" "tree \<noteq> JBool False" "typeof tree \<noteq> ''undefined''" "\<not> nullish tree"
    by (cases tree; auto simp: nullish_def)+
  have rd: "read tree ''children'' = Inr (JArr r nodes)" using c t by (simp add: read_def)
  have v: "(if tree \<noteq> JNull \<and> tree \<noteq> JBool False \<and> typeof tree \<noteq> ''undefined''
            then fn tree s else Inr s) = Inr (f tree s)"
    using t "1.prems"(2) by simp
  have "forEachNode fn nodes (f tree s)
        = Inr (foldl (\<lambda>s n. f n s) (f tree s) (concat (map preorder nodes)))"
    by (rule "1.IH"[OF v rd refl a "1.prems"(2)])
  moreover have "preorder tree = tree # concat (map preorder nodes)"
    by (subst preorder.simps) (simp add: c)
  ultimately show ?case
    by (subst treeForEach.simps) (simp add: v rd)
next
  case (2 fn s)
  then show ?case by simp
next
  case (3 fn node nodes s)
  from "3.prems" have e: "elementTree node" and a: "list_all elementTree nodes" by simp_all
  have h: "treeForEach fn node s = Inr (foldl (\<lambda>s n. f n s) s (preorder node))"
    by (rule "3.IH"(1)[OF e "3.prems"(2)])
  have "forEachNode fn nodes (foldl (\<lambda>s n. f n s) s (preorder node))
      = Inr (foldl (\<lambda>s n. f n s) (foldl (\<lambda>s n. f n s) s (preorder node)) (concat (map preorder nodes)))"
    by (rule "3.IH"(2)[OF h a "3.prems"(2)])
  with h show ?case by simp
qed

lemma foldl_push:
  "foldl (\<lambda>results n. if P n then results @ [n] else results) acc xs = acc @ filter P xs"
  by (induction xs arbitrary: acc) auto

lemma treeFilter_preorder:
  "elementTree tree \<Longrightarrow>
     treeFilter (\<lambda>n. Inr (p n)) tree = Inr (filter (\<lambda>n. truthy (p n)) (preorder tree))"
  unfolding treeFilter_def
  using treeForEach_preorder(1)[of tree _ "\<lambda>n results. if truthy (p n) then results @ [n] else results" "[]"]
    foldl_push[of "\<lambda>n. truthy (p n)" "[]" "preorder tree"]
  by simp

text \<open>
  C2 (where the code departs from it): on null, undefined and false \<^verbatim>\<open>treeForEach\<close>
  skips the visit and then fails on \<^verbatim>\<open>tree.children.forEach\<close>; on a text leaf it
  fails there too, after the visit.
\<close>

theorem treeForEach_fails_on_absent_tree:
  "treeForEach fn JNull s = Inl (NullDereference ''children'')
   \<and> treeForEach fn JUndefined s = Inl (NullDereference ''children'')
   \<and> treeForEach fn (JBool False) s = Inl (NullDereference ''forEach'')
   \<and> treeForEach fn (JStr ''Hi'') s
       = (case fn (JStr ''Hi'') s of Inl e \<Rightarrow> Inl e | Inr s' \<Rightarrow> Inl (NullDereference ''forEach''))"
  by (simp add: read_def nullish_def split: sum.splits)

section \<open>Reflexivity and symmetry of the comparator\<close>

lemma strict_eq_sym: "strict_eq a b = strict_eq b a"
  by (auto simp: strict_eq_def)

lemma propsLoop_iff:
  "propsLoop isEqual left right ks \<longleftrightarrow>
     (\<forall>k \<in> set ks. k = ''children''
        \<or> (hasProperty k right \<and> valueEq isEqual (member right k) (member left k)))"
  by (induction ks) (auto simp: valueEq_def)

lemma distinct_assign: "distinct (map fst acc) \<Longrightarrow> distinct (map fst (foldl assign acc xs))"
  by (induction xs arbitrary: acc) (auto simp: assign_def distinct_update)

lemma distinct_propsOfNode: "distinct (map fst (propsOfNode v))"
  by (simp add: propsOfNode_def distinct_assign)

lemma assign_keys: "fst ` set (foldl assign acc xs) \<subseteq> fst ` set acc \<union> fst ` set xs"
proof (induction xs arbitrary: acc)
  case (Cons x xs)
  have "fst ` set (AList.update (fst x) (snd x) acc) \<subseteq> fst ` set acc \<union> {fst x}"
    by (induction acc) auto
  then have "fst ` set (assign acc x) \<subseteq> fst ` set acc \<union> {fst x}"
    by (auto simp: assign_def)
  with Cons[of "assign acc x"] show ?case by auto
qed simp

lemma propsOfNode_keys: "fst ` set (propsOfNode v) \<subseteq> fst ` set (nodeEntries v)"
  using assign_keys[of "[]" "filter (\<lambda>(key, value). typeof value \<noteq> ''undefined'') (nodeEntries v)"]
  by (auto simp: propsOfNode_def)

lemma ownCount_card:
  assumes "distinct (map fst obj)"
  shows "ownCount obj = int (card (fst ` set obj - {''children''}))"
proof -
  have c: "card (fst ` set obj) = length obj"
    using assms distinct_card[of "map fst obj"] by simp
  show ?thesis
  proof (cases "''children'' \<in> fst ` set obj")
    case True
    then have "card (fst ` set obj - {''children''}) = card (fst ` set obj) - 1" by simp
    moreover have "card (fst ` set obj) > 0" using True by (auto simp: card_gt_0_iff)
    ultimately show ?thesis using True c
      by (cases obj) (auto simp: ownCount_def hasProperty_children)
  next
    case False
    then show ?thesis using c by (simp add: ownCount_def hasProperty_children)
  qed
qed

lemma props_half:
  assumes sym: "\<And>x y. isEqual x y = isEqual y x"
    and dl: "distinct (map fst left)" and dr: "distinct (map fst right)"
    and nl: "fst ` set left \<inter> set objectPrototypeNames = {}"
    and loop: "propsLoop isEqual left right (map fst left)"
    and cnt: "ownCount left = ownCount right"
  shows "propsLoop isEqual right left (map fst right)"
proof -
  let ?KL = "fst ` set left - {''children''}" and ?KR = "fst ` set right - {''children''}"
  have sub: "?KL \<subseteq> ?KR"
  proof
    fix k assume k: "k \<in> ?KL"
    then have "hasProperty k right" using loop by (auto simp: propsLoop_iff)
    moreover have "k \<notin> set objectPrototypeNames" using k nl by auto
    ultimately have "k \<in> fst ` set right" by (simp add: hasProperty_own)
    with k show "k \<in> ?KR" by simp
  qed
  have "card ?KL = card ?KR" using cnt ownCount_card[OF dl] ownCount_card[OF dr] by simp
  with sub have eq: "?KL = ?KR" by (intro card_subset_eq) auto
  have v: "valueEq isEqual r l = valueEq isEqual l r" for r l
    using sym by (auto simp: valueEq_def strict_eq_sym)
  show ?thesis
    unfolding propsLoop_iff
  proof (intro ballI)
    fix k assume "k \<in> set (map fst right)"
    show "k = ''children''
        \<or> (hasProperty k left \<and> valueEq isEqual (member left k) (member right k))"
    proof (cases "k = ''children''")
      case False
      with \<open>k \<in> set (map fst right)\<close> have "k \<in> ?KR" by simp
      with eq have kl: "k \<in> ?KL" by simp
      then have "valueEq isEqual (member right k) (member left k)"
        using loop False by (auto simp: propsLoop_iff)
      moreover have "hasProperty k left"
        using kl by (auto simp: hasProperty_def map_of_eq_None_iff)
      ultimately show ?thesis using v by blast
    qed simp
  qed
qed

lemma props_sym:
  assumes "\<And>x y. isEqual x y = isEqual y x" "distinct (map fst left)" "distinct (map fst right)"
    "fst ` set left \<inter> set objectPrototypeNames = {}"
    "fst ` set right \<inter> set objectPrototypeNames = {}"
  shows "(propsLoop isEqual left right (map fst left) \<and> ownCount left = ownCount right)
       = (propsLoop isEqual right left (map fst right) \<and> ownCount right = ownCount left)"
  using props_half[OF assms(1) assms(2) assms(3) assms(4)]
    props_half[OF assms(1) assms(3) assms(2) assms(5)]
  by auto

lemma childrenLoop_sym:
  "\<forall>x \<in> set xs. \<forall>y \<in> set ys. f x y = g y x \<Longrightarrow> childrenLoop f xs ys = childrenLoop g ys xs"
proof (induction xs arbitrary: ys)
  case Nil
  then show ?case by (cases ys) auto
next
  case (Cons x xs)
  then show ?case by (cases ys) auto
qed

lemma internalChildrenCompare_sym:
  "\<forall>x \<in> set xs. \<forall>y \<in> set ys. f x y = g y x
   \<Longrightarrow> internalChildrenCompare f xs ys = internalChildrenCompare g ys xs"
  using childrenLoop_sym[of xs ys f g] by (auto simp: internalChildrenCompare_def)

lemma simplify_step_pred:
  assumes "\<forall>y \<in> set acc. P y" "P x" "\<And>a b. isTextualNode a \<Longrightarrow> isTextualNode b \<Longrightarrow> P (js_plus a b)"
  shows "\<forall>y \<in> set (simplify_step acc x). P y"
proof (cases "acc = []")
  case True
  then show ?thesis using assms by (simp add: simplify_step_def pop_def)
next
  case False
  have "\<forall>y \<in> set (butlast acc). P y" using assms by (auto dest: in_set_butlastD)
  moreover have "P (last acc)" using assms False by simp
  ultimately show ?thesis using assms False
    by (simp add: simplify_step_def pop_def)
qed

lemma foldl_simplify_pred:
  assumes "\<And>a b. isTextualNode a \<Longrightarrow> isTextualNode b \<Longrightarrow> P (js_plus a b)"
  shows "\<forall>y \<in> set acc. P y \<Longrightarrow> \<forall>y \<in> set xs. P y \<Longrightarrow> \<forall>y \<in> set (foldl simplify_step acc xs). P y"
proof (induction xs arbitrary: acc)
  case (Cons x xs)
  have "\<forall>y \<in> set (simplify_step acc x). P y"
    using Cons.prems assms by (intro simplify_step_pred) auto
  with Cons show ?case by simp
qed simp

lemma renderNode_textual: "isTextualNode v \<Longrightarrow> renderNode v"
  by (subst renderNode.simps) simp

lemma renderNode_children:
  assumes "renderNode a" "x \<in> set (childrenOf False a)"
  shows "renderNode x"
proof (cases "isTextualNode a")
  case True
  with assms(2) show ?thesis by (simp add: childrenOf_textual)
next
  case False
  have "renderNode a = (isTextualNode a
      \<or> (get a ''type'' \<noteq> JUndefined
          \<and> list_all (\<lambda>key. key \<notin> set objectPrototypeNames) (map fst (nodeEntries a))
          \<and> list_all renderNode (childrenToArray (member (propsOfNode a) ''children''))))"
    by (rule renderNode.simps)
  with assms(1) False
  have "list_all renderNode (childrenToArray (member (propsOfNode a) ''children''))"
    by blast
  then have "list_all renderNode (childrenToArray (lookup (propsOfNode a) ''children''))"
    by (simp only: member_children)
  then have c: "\<forall>y \<in> set (childrenToArray (lookup (propsOfNode a) ''children'')). renderNode y"
    by (simp add: list_all_iff)
  have p: "\<And>u v. isTextualNode u \<Longrightarrow> isTextualNode v \<Longrightarrow> renderNode (js_plus u v)"
    by (rule renderNode_textual) (rule textual_plus)
  have "\<forall>y \<in> set (foldl simplify_step [] (childrenToArray (lookup (propsOfNode a) ''children''))). renderNode y"
    by (rule foldl_simplify_pred[OF p _ c]) simp_all
  then have "\<forall>y \<in> set (childrenOf False a). renderNode y"
    by (simp add: childrenOf_def nodeProps_def childrenToSimplifiedArray_def)
  with assms(2) show ?thesis by blast
qed


lemma renderNode_typed: "renderNode a \<Longrightarrow> \<not> isTextualNode a \<Longrightarrow> get a ''type'' \<noteq> JUndefined"
  using renderNode.simps[of a] by blast

lemma renderNode_keys:
  assumes "renderNode a"
  shows "fst ` set (propsOfNode a) \<inter> set objectPrototypeNames = {}"
proof (cases "isTextualNode a")
  case True
  then have "propsOfNode a = []" using nodeProps_textual[of a False] by (simp add: nodeProps_def)
  then show ?thesis by simp
next
  case False
  with assms have "list_all (\<lambda>key. key \<notin> set objectPrototypeNames) (map fst (nodeEntries a))"
    using renderNode.simps[of a] by blast
  then have "fst ` set (nodeEntries a) \<inter> set objectPrototypeNames = {}"
    by (auto simp: list_all_iff)
  with propsOfNode_keys[of a] show ?thesis by blast
qed

lemma textual_type: "isTextualNode a \<Longrightarrow> get a ''type'' = JUndefined"
  by (cases a) auto

lemma compare_unfold:
  "internalNodeCompare isEqual object_is False a b =
     (strict_eq a b \<or>
      (truthy a \<and> truthy b \<and> strict_eq (get a ''type'') (get b ''type'')
       \<and> (propsLoop isEqual (propsOfNode a) (propsOfNode b) (map fst (propsOfNode a))
          \<and> ownCount (propsOfNode a) = ownCount (propsOfNode b))
       \<and> ((hasProperty ''children'' (propsOfNode a) \<or> hasProperty ''children'' (propsOfNode b))
            \<longrightarrow> internalChildrenCompare (internalNodeCompare isEqual object_is False)
                  (childrenOf False a) (childrenOf False b))
       \<and> \<not> isTextualNode a))"
  apply (subst internalNodeCompare.simps)
  apply (simp only: nodeProps_def ownCount_def object_is_def if_False)
  apply (simp only: if_bool_eq_conj)
  apply blast
  done

lemma internalNodeCompare_sym:
  assumes sym: "\<And>x y. isEqual x y = isEqual y x"
  shows "renderNode a \<Longrightarrow> renderNode b \<Longrightarrow> lenComp = object_is \<Longrightarrow> \<not> isLoose \<Longrightarrow>
     internalNodeCompare isEqual lenComp isLoose a b = internalNodeCompare isEqual lenComp isLoose b a"
  using sym
proof (induction isEqual lenComp isLoose a b rule: internalNodeCompare.induct)
  case (1 isEqual lenComp isLoose a b)
  note sym = \<open>\<And>x y. isEqual x y = isEqual y x\<close>
  have l: "lenComp = object_is" "isLoose = False" using "1.prems" by simp_all
  let ?cmp = "internalNodeCompare isEqual object_is False"
  let ?A = "propsLoop isEqual (propsOfNode a) (propsOfNode b) (map fst (propsOfNode a))
          \<and> ownCount (propsOfNode a) = ownCount (propsOfNode b)"
  let ?A' = "propsLoop isEqual (propsOfNode b) (propsOfNode a) (map fst (propsOfNode b))
          \<and> ownCount (propsOfNode b) = ownCount (propsOfNode a)"
  have A: "?A = ?A'"
    by (rule props_sym[OF sym distinct_propsOfNode distinct_propsOfNode
          renderNode_keys[OF "1.prems"(1)] renderNode_keys[OF "1.prems"(2)]])
  show ?case
  proof (cases "strict_eq a b \<or> \<not> truthy a \<or> \<not> truthy b
                \<or> \<not> strict_eq (get a ''type'') (get b ''type'') \<or> \<not> ?A")
    case True
    then show ?thesis
      unfolding l compare_unfold[of isEqual a b] compare_unfold[of isEqual b a]
      using A strict_eq_sym[of a b] strict_eq_sym[of "get a ''type''" "get b ''type''"] by blast
  next
    case False
    then have path: "\<not> strict_eq a b" "\<not> (\<not> truthy a \<or> \<not> truthy b)"
      "\<not> \<not> strict_eq (get a ''type'') (get b ''type'')" "?A" by blast+
    have ty: "get a ''type'' = get b ''type''" using path(3) by (simp add: strict_eq_def)
    have tx: "isTextualNode a = isTextualNode b"
      using ty renderNode_typed[OF "1.prems"(1)] renderNode_typed[OF "1.prems"(2)]
        textual_type[of a] textual_type[of b] by metis
    have ih: "?cmp x y = ?cmp y x" if "x \<in> set (childrenOf False a)" "y \<in> set (childrenOf False b)" for x y
    proof -
      have "\<not> \<not> propsLoop isEqual (nodeProps isLoose a) (nodeProps isLoose b) (map fst (nodeProps isLoose a))"
        using path(4) by (simp add: l nodeProps_def)
      moreover have "x \<in> set (childrenOf isLoose a)" "y \<in> set (childrenOf isLoose b)"
        using that by (simp_all add: l)
      moreover have "renderNode x" "renderNode y"
        using renderNode_children "1.prems"(1,2) that by blast+
      ultimately show ?thesis
        using "1.IH"[of x y] path(1-3) "1.prems"(3,4) sym unfolding l by blast
    qed
    have C: "internalChildrenCompare ?cmp (childrenOf False a) (childrenOf False b)
           = internalChildrenCompare ?cmp (childrenOf False b) (childrenOf False a)"
      by (rule internalChildrenCompare_sym) (use ih in blast)
    show ?thesis
      unfolding l compare_unfold[of isEqual a b] compare_unfold[of isEqual b a]
      using A C tx strict_eq_sym[of a b] strict_eq_sym[of "get a ''type''" "get b ''type''"] by blast
  qed
qed

lemma matches_not_symmetric:
  "nodeMatches isEqual (\<lambda>a b. a \<le> b) sampleDiv sampleDivTitled
   \<and> \<not> nodeMatches isEqual (\<lambda>a b. a \<le> b) sampleDivTitled sampleDiv"
  by (simp add: nodeMatches_def internalNodeCompare.simps sampleDiv_def sampleDivTitled_def
      strict_eq_def nodeProps_def propsOfNode_def nodeEntries_def lookup_def member_def
      hasProperty_def objectPrototype_def assign_def removeNullaryReducer_def
      childrenOf_def childrenToSimplifiedArray_def internalChildrenCompare_def)




end
